theory Spec2Isabelle
  imports Main "HOL-Library.FSet" "HOL-Library.Char_ord" "HOL-Library.List_Lexorder"
begin

section \<open>Data model\<close>

text \<open>
  Python exceptions are values. \<open>ConstructionError\<close> and \<open>BuildError\<close> are the two
  error classes of the specification that the sources under study do not raise
  themselves (they come from the node base class and from the builder).
\<close>

datatype error =
    TypeError | ValueError | RuntimeError | KeyError | AssertionError | IndexError
  | ConstructionError | BuildError

text \<open>
  An \<open>Arrow\<close> (called \<open>Var\<close> in \<^verbatim>\<open>_internal_op.py\<close>) is a Python object; the model
  holds a reference to it. An operator-set requirement is a pair (domain, version);
  Python's \<open>Set[Tuple[str, int]]\<close> is a finite set of them.
\<close>

type_synonym arrow = nat
type_synonym opset = "string \<times> int"
type_synonym dtype = string

datatype dim = DimInt nat | DimSym string | DimNone

datatype ty = Tensor dtype "dim list option" | Sequence ty | Optional ty

record ndarray =
  arr_dtype :: dtype
  arr_shape :: "nat list"
  arr_data :: "int list"

record op_type =
  ot_identifier :: string
  ot_domain :: string
  ot_version :: int

text \<open>\<open>onnx.NodeProto\<close>, with the fields that \<open>onnx.helper.make_node\<close> is given.\<close>

record node_proto =
  np_op_type :: string
  np_input :: "string list"
  np_output :: "string list"
  np_name :: "string option"
  np_doc_string :: "string option"

text \<open>
  \<open>class Graph\<close> (a frozen dataclass, \<^verbatim>\<open>graph.py\<close>). The fields \<open>_results\<close> ...
  \<open>_build_result\<close> lose their leading underscore. \<open>_extra_opset_req\<close> is a mutable
  Python set and \<open>_build_result\<close> a mutable \<open>Cached\<close> cell: both are held by
  reference, their contents live in the \<open>world\<close> below. \<open>_constructor\<close> is a
  callable, also held by reference. The \<open>isinstance\<close> checks of \<open>__post_init__\<close>
  are discharged by the types of \<open>g_results\<close> and \<open>g_arguments\<close>.
\<close>

record graph =
  g_results :: "(string \<times> arrow) list"
  g_name :: "string option"
  g_doc_string :: "string option"
  g_arguments :: "arrow list option"
  g_extra_opset_req :: "nat option"
  g_constructor :: "nat option"
  g_build_result :: nat

text \<open>
  \<open>class Function\<close> (\<^verbatim>\<open>function.py\<close>): the operator identifier, the attribute names
  \<open>Attributes.get_kwargs()\<close>, and the \<open>func_*\<close> fields set at construction.
  \<open>f_node_opset_req\<close> is the value of the inherited property \<open>Node.opset_req\<close>
  (the base class is not part of the sources under study), carried as data.
\<close>

record func =
  f_op_type :: op_type
  f_node_opset_req :: "opset fset"
  f_attributes :: "string list"
  func_inputs :: "(string \<times> arrow) list"
  func_outputs :: "(string \<times> arrow) list"
  func_graph :: graph

text \<open>\<open>Argument.Attributes\<close>: the dataclass stores whatever it is given, so \<open>type\<close> can be \<open>None\<close>.\<close>

record arg_attrs =
  a_type :: "ty option"
  a_name :: "string option"
  a_default :: "ndarray option"

text \<open>
  The node kinds. Every node carries its output references, which are allocated
  freshly for it, so two distinct node objects are two distinct values.
  \<open>OtherNode\<close> stands for a node of the operator library: its own \<open>opset_req\<close>,
  its inputs and its outputs.
\<close>

datatype node =
    Argument arg_attrs arrow
  | Initializer ty ndarray arrow
  | Constant ndarray "int option" arrow
  | Introduce "arrow list" "arrow list"
  | Function func "arrow list" "arrow list"
  | OtherNode "opset fset" "arrow list" "arrow list"

text \<open>
  A \<open>Var\<close> object: \<open>type\<close>, \<open>_value\<close> (the propagated value), its name, and its
  producing node (\<open>None\<close> for a reference that has not been allocated).
\<close>

record var =
  var_type :: "ty option"
  var_value :: "ndarray option"
  var_name :: "string option"
  var_op :: "node option"

text \<open>
  \<open>Scope\<close>: \<open>scope.arrow\<close> (\<open>scope.var\<close> in \<^verbatim>\<open>_internal_op.py\<close>) and \<open>scope.node\<close> are
  dictionaries from objects to names; subscripting a missing key raises \<open>KeyError\<close>.
\<close>

record scope =
  scope_var :: "(arrow \<times> string) list"
  scope_node :: "(node \<times> string) list"

text \<open>
  \<open>BuildResult\<close>, with the fields that \<^verbatim>\<open>graph.py\<close> and \<^verbatim>\<open>function.py\<close> read.
  \<open>nodes\<close> and \<open>initializers\<close> are Python dictionaries: association lists in
  insertion order.
\<close>

record build_result =
  br_scope :: scope
  br_nodes :: "(node \<times> node_proto list) list"
  br_arguments :: "arrow list"
  br_results :: "arrow list"
  br_opset_req :: "opset fset"
  br_functions :: "func list"
  br_initializers :: "(arrow \<times> ndarray) list"

text \<open>
  The mutable objects of the program: the \<open>Var\<close> objects, the \<open>Cached\<close> cells
  (\<open>_value\<close> is \<open>None\<close> until set) and the Python set objects, each with its
  allocation counter. \<open>builds\<close> counts the invocations of \<open>Builder(...).build_main()\<close>;
  it is a trace of that effect, not a field of the program.
\<close>

record world =
  vars :: "arrow \<Rightarrow> var"
  next_var :: nat
  cached :: "nat \<Rightarrow> build_result option"
  next_cached :: nat
  set_objs :: "nat \<Rightarrow> opset fset"
  next_set :: nat
  builds :: nat

type_synonym 'a st = "world \<Rightarrow> (error + 'a) \<times> world"

definition st_return :: "'a \<Rightarrow> 'a st" where
  "st_return x w = (Inr x, w)"

definition st_raise :: "error \<Rightarrow> 'a st" where
  "st_raise e w = (Inl e, w)"

definition st_bind :: "'a st \<Rightarrow> ('a \<Rightarrow> 'b st) \<Rightarrow> 'b st" where
  "st_bind m k w = (case m w of (Inl e, w') \<Rightarrow> (Inl e, w') | (Inr x, w') \<Rightarrow> k x w')"

text \<open>
  The collaborators that \<^verbatim>\<open>graph.py\<close> calls and that are not part of the sources under
  study are parameters: the builder (which may build nested graphs, hence runs in the
  world), \<open>adapt_best_effort\<close>, \<open>Type.to_onnx_value_info\<close>, and the two passes of the
  \<open>onnx\<close> package.
\<close>

record value_info =
  vi_name :: string
  vi_type :: ty

record tensor_proto =
  tp_name :: string
  tp_array :: ndarray

record graph_proto =
  gp_node :: "node_proto list"
  gp_name :: string
  gp_input :: "value_info list"
  gp_output :: "value_info list"
  gp_initializer :: "tensor_proto list"
  gp_doc_string :: "string option"

record function_proto =
  fp_domain :: string
  fp_name :: string
  fp_input :: "string list"
  fp_output :: "string list"
  fp_node :: "node_proto list"
  fp_opset_import :: "opset list"
  fp_attribute :: "string list"

record model_proto =
  mp_graph :: graph_proto
  mp_producer_name :: string
  mp_doc_string :: string
  mp_functions :: "function_proto list"
  mp_opset_import :: "opset list"

record ext =
  build_main :: "graph \<Rightarrow> build_result st"
  adapt_best_effort ::
    "node \<Rightarrow> node_proto list \<Rightarrow> opset list \<Rightarrow> (arrow \<times> string) list \<Rightarrow> (node \<times> string) list
      \<Rightarrow> node_proto list option"
  to_onnx_value_info :: "ty \<Rightarrow> string \<Rightarrow> bool \<Rightarrow> error + value_info"
  infer_shapes :: "model_proto \<Rightarrow> error + model_proto"
  check_model :: "model_proto \<Rightarrow> bool \<Rightarrow> error option"

section \<open>The build cache\<close>

text \<open>
  Modelled from the spec: \<open>_build.Cached\<close> is not part of the sources under study.
  The specification: "a memoizing lazy value with explicit already-computed state".
  \<open>_value\<close> is the content of the cell, \<open>None\<close> while it is empty; assigning \<open>value\<close>
  stores a result, and reading \<open>value\<close> gives the stored result (an empty cell has
  none to give).
\<close>

definition cached_set :: "nat \<Rightarrow> build_result \<Rightarrow> world \<Rightarrow> world" where
  "cached_set c r w = w\<lparr>cached := (cached w)(c := Some r)\<rparr>"

text \<open>
  \<open>Graph._get_build_result\<close>:
  \<^verbatim>\<open>
    if self._build_result._value is None:
        self._build_result.value = _build.Builder(self).build_main()
    return self._build_result.value
  \<close>
\<close>

definition get_build_result :: "ext \<Rightarrow> graph \<Rightarrow> build_result st" where
  "get_build_result X g w =
     (case cached w (g_build_result g) of
        None \<Rightarrow>
          (case build_main X g (w\<lparr>builds := Suc (builds w)\<rparr>) of
             (Inl e, w1) \<Rightarrow> (Inl e, w1)
           | (Inr r, w1) \<Rightarrow>
               (let w2 = cached_set (g_build_result g) r w1
                in (case cached w2 (g_build_result g) of
                      None \<Rightarrow> (Inl BuildError, w2)
                    | Some r' \<Rightarrow> (Inr r', w2))))
      | Some r \<Rightarrow> (Inr r, w))"

section \<open>Python dictionaries\<close>

text \<open>
  A dictionary is an association list in insertion order with distinct keys.
  \<open>d[k] = v\<close> replaces the value where the key is, and appends otherwise;
  \<open>d[k]\<close> raises \<open>KeyError\<close> for a missing key.
\<close>

fun dict_set :: "('k \<times> 'v) list \<Rightarrow> 'k \<Rightarrow> 'v \<Rightarrow> ('k \<times> 'v) list" where
  "dict_set [] k v = [(k, v)]"
| "dict_set ((k', v') # d) k v =
     (if k' = k then (k, v) # d else (k', v') # dict_set d k v)"

definition dict_get :: "('k \<times> 'v) list \<Rightarrow> 'k \<Rightarrow> error + 'v" where
  "dict_get d k = (case map_of d k of None \<Rightarrow> Inl KeyError | Some v \<Rightarrow> Inr v)"

section \<open>Operator sets of a graph\<close>

text \<open>
  Modelled from the spec: \<open>schemas.max_opset_policy\<close> is not part of the sources under
  study. The specification: the import list has "one version per domain, computed as
  max of required versions". The result is a \<open>Dict[str, int]\<close>; the specification
  fixes no order of its keys, the model lists the domains in ascending order.
\<close>

definition max_opset_policy :: "opset fset \<Rightarrow> opset list" where
  "max_opset_policy req =
     map (\<lambda>d. (d, fMax (snd |`| ffilter (\<lambda>p. fst p = d) req)))
         (sorted_list_of_fset (fst |`| req))"

text \<open>
  \<open>Graph._get_opset_req\<close>:
  \<^verbatim>\<open>
    return self._get_build_result().opset_req | (
        self._extra_opset_req if self._extra_opset_req is not None else set())
  \<close>
\<close>

definition extra_opset_req :: "graph \<Rightarrow> world \<Rightarrow> opset fset" where
  "extra_opset_req g w =
     (case g_extra_opset_req g of None \<Rightarrow> {||} | Some s \<Rightarrow> set_objs w s)"

definition get_opset_req :: "ext \<Rightarrow> graph \<Rightarrow> opset fset st" where
  "get_opset_req X g =
     st_bind (get_build_result X g)
       (\<lambda>r w. (Inr (br_opset_req r |\<union>| extra_opset_req g w), w))"

text \<open>\<open>Graph.get_opsets\<close>: \<^verbatim>\<open>return max_opset_policy(self._get_opset_req())\<close>\<close>

definition get_opsets :: "ext \<Rightarrow> graph \<Rightarrow> opset list st" where
  "get_opsets X g = st_bind (get_opset_req X g) (\<lambda>req. st_return (max_opset_policy req))"

section \<open>Named arguments, results and initializers\<close>

text \<open>
  The three dictionary comprehensions of \<open>get_arguments\<close>, \<open>get_results\<close> and
  \<open>_get_initializers_by_name\<close>: the iterable is read from the build result once, and
  the key expression \<open>self._get_build_result().scope.arrow[arrow]\<close> is evaluated for
  every item.
\<close>

fun named_items ::
  "ext \<Rightarrow> graph \<Rightarrow> (arrow \<times> 'v) list \<Rightarrow> (string \<times> 'v) list \<Rightarrow> (string \<times> 'v) list st" where
  "named_items X g [] d = st_return d"
| "named_items X g ((a, v) # items) d =
     st_bind (get_build_result X g) (\<lambda>r.
       case dict_get (scope_var (br_scope r)) a of
         Inl e \<Rightarrow> st_raise e
       | Inr n \<Rightarrow> named_items X g items (dict_set d n v))"

definition get_arguments :: "ext \<Rightarrow> graph \<Rightarrow> (string \<times> arrow) list st" where
  "get_arguments X g =
     st_bind (get_build_result X g)
       (\<lambda>r. named_items X g (map (\<lambda>a. (a, a)) (br_arguments r)) [])"

definition get_results :: "ext \<Rightarrow> graph \<Rightarrow> (string \<times> arrow) list st" where
  "get_results X g =
     st_bind (get_build_result X g)
       (\<lambda>r. named_items X g (map (\<lambda>a. (a, a)) (br_results r)) [])"

definition get_initializers_by_name :: "ext \<Rightarrow> graph \<Rightarrow> (string \<times> ndarray) list st" where
  "get_initializers_by_name X g =
     st_bind (get_build_result X g) (\<lambda>r. named_items X g (br_initializers r) [])"

section \<open>Version adaptation\<close>

text \<open>
  \<open>Graph.get_adapted_nodes\<close>:
  \<^verbatim>\<open>
    nodes = self._get_build_result().nodes
    consistent_nodes = nodes.copy()
    for node, protos in nodes.items():
        best_effort = adapt_best_effort(node, list(protos), self.get_opsets(),
            self._get_build_result().scope.arrow.name_of,
            self._get_build_result().scope.node.name_of)
        consistent_nodes[node] = (
            tuple(best_effort) if best_effort is not None else protos)
    return consistent_nodes
  \<close>
  The two \<open>name_of\<close> callbacks are passed as the dictionaries they read.
\<close>

fun adapt_loop ::
  "ext \<Rightarrow> graph \<Rightarrow> (node \<times> node_proto list) list \<Rightarrow> (node \<times> node_proto list) list
    \<Rightarrow> (node \<times> node_proto list) list st" where
  "adapt_loop X g [] consistent_nodes = st_return consistent_nodes"
| "adapt_loop X g ((n, protos) # items) consistent_nodes =
     st_bind (get_opsets X g) (\<lambda>opsets.
     st_bind (get_build_result X g) (\<lambda>r1.
     st_bind (get_build_result X g) (\<lambda>r2.
       adapt_loop X g items
         (dict_set consistent_nodes n
            (case adapt_best_effort X n protos opsets
                    (scope_var (br_scope r1)) (scope_node (br_scope r2)) of
               None \<Rightarrow> protos
             | Some best_effort \<Rightarrow> best_effort)))))"

definition get_adapted_nodes :: "ext \<Rightarrow> graph \<Rightarrow> (node \<times> node_proto list) list st" where
  "get_adapted_nodes X g =
     st_bind (get_build_result X g) (\<lambda>r. adapt_loop X g (br_nodes r) (br_nodes r))"

section \<open>Serialization of a graph\<close>

text \<open>
  Modelled from the spec: the class \<open>Var\<close> (\<open>Arrow\<close>) is not part of the sources under
  study. The specification: a Value "has an optional static Type". \<open>unwrap_type\<close>
  gives the type of the \<open>Var\<close>, and raises \<open>TypeError\<close> when it is unknown.
\<close>

definition unwrap_type :: "arrow \<Rightarrow> ty st" where
  "unwrap_type a w =
     (case var_type (vars w a) of None \<Rightarrow> (Inl TypeError, w) | Some t \<Rightarrow> (Inr t, w))"

fun value_infos :: "ext \<Rightarrow> bool \<Rightarrow> (string \<times> arrow) list \<Rightarrow> value_info list st" where
  "value_infos X concrete [] = st_return []"
| "value_infos X concrete ((name, a) # items) =
     st_bind (unwrap_type a) (\<lambda>t.
       case to_onnx_value_info X t name concrete of
         Inl e \<Rightarrow> st_raise e
       | Inr vi \<Rightarrow>
           st_bind (value_infos X concrete items) (\<lambda>vis. st_return (vi # vis)))"

text \<open>
  \<open>Graph.to_onnx\<close>. The name test \<open>if self._name\<close> is Python truthiness: \<open>None\<close> and
  the empty string both give the default name. \<open>attr.from_array\<close> and
  \<open>onnx.helper.make_graph\<close> build the records.
\<close>

definition to_onnx :: "ext \<Rightarrow> graph \<Rightarrow> bool \<Rightarrow> graph_proto st" where
  "to_onnx X g concrete =
     st_bind (get_results X g) (\<lambda>res0.
       if res0 = [] then st_raise ValueError
       else
         st_bind (get_arguments X g) (\<lambda>args.
         st_bind (value_infos X concrete args) (\<lambda>argument_info.
         st_bind (get_results X g) (\<lambda>res.
         st_bind (value_infos X concrete res) (\<lambda>result_info.
           let name = (case g_name g of
                         None \<Rightarrow> ''steelix_graph''
                       | Some n \<Rightarrow> if n = [] then ''steelix_graph'' else n)
           in
             st_bind (get_initializers_by_name X g) (\<lambda>inits.
               let initializer_tensors =
                     map (\<lambda>(name, arr). \<lparr>tp_name = name, tp_array = arr\<rparr>) inits
               in
                 st_bind (get_adapted_nodes X g) (\<lambda>adapted.
                   st_return
                     \<lparr>gp_node = concat (map snd adapted),
                      gp_name = name,
                      gp_input = argument_info,
                      gp_output = result_info,
                      gp_initializer = initializer_tensors,
                      gp_doc_string = g_doc_string g\<rparr>)))))))"

section \<open>Functions and the model\<close>

text \<open>
  \<open>Function.to_onnx_function\<close> (\<^verbatim>\<open>function.py\<close>): the instructions of the internal
  graph's build (unadapted), under the operator identifier of the function. The result
  is optional because the caller tests it against \<open>None\<close>.
\<close>

definition to_onnx_function :: "ext \<Rightarrow> func \<Rightarrow> function_proto option st" where
  "to_onnx_function X f =
     st_bind (get_build_result X (func_graph f)) (\<lambda>r.
     st_bind (get_opsets X (func_graph f)) (\<lambda>opsets.
       st_return (Some
         \<lparr>fp_domain = ot_domain (f_op_type f),
          fp_name = ot_identifier (f_op_type f),
          fp_input = map fst (func_inputs f),
          fp_output = map fst (func_outputs f),
          fp_node = concat (map snd (br_nodes r)),
          fp_opset_import = opsets,
          fp_attribute = f_attributes f\<rparr>)))"

text \<open>
  The first loop of \<open>Graph.to_onnx_model\<close>:
  \<^verbatim>\<open>
    for fun in self._get_build_result().functions:
        proto = fun.to_onnx_function()
        if proto is None:
            continue
        key = (proto.domain, proto.name)
        if key in function_protos and proto != function_protos[key]:
            raise RuntimeError(...)
        function_protos[key] = proto
  \<close>
\<close>

fun collect_function_protos ::
  "ext \<Rightarrow> func list \<Rightarrow> ((string \<times> string) \<times> function_proto) list
    \<Rightarrow> ((string \<times> string) \<times> function_proto) list st" where
  "collect_function_protos X [] function_protos = st_return function_protos"
| "collect_function_protos X (f # fs) function_protos =
     st_bind (to_onnx_function X f) (\<lambda>p.
       case p of
         None \<Rightarrow> collect_function_protos X fs function_protos
       | Some proto \<Rightarrow>
           (let key = (fp_domain proto, fp_name proto) in
            if map_of function_protos key \<noteq> None \<and> Some proto \<noteq> map_of function_protos key
            then st_raise RuntimeError
            else collect_function_protos X fs (dict_set function_protos key proto)))"

text \<open>
  \<open>Graph.to_onnx_model\<close>. \<open>check_model\<close> is the level 0, 1 or 2; the checker of the
  \<open>onnx\<close> package either raises or returns nothing.
\<close>

definition to_onnx_model ::
  "ext \<Rightarrow> graph \<Rightarrow> string \<Rightarrow> string \<Rightarrow> bool \<Rightarrow> nat \<Rightarrow> bool \<Rightarrow> model_proto st" where
  "to_onnx_model X g producer_name model_doc_string do_infer_shapes check_level concrete =
     st_bind (get_build_result X g) (\<lambda>r.
     st_bind (collect_function_protos X (br_functions r) []) (\<lambda>function_protos.
     st_bind (get_opsets X g) (\<lambda>opsets0.
       if opsets0 = [] then st_raise RuntimeError
       else
         st_bind (to_onnx X g concrete) (\<lambda>gp.
         st_bind (get_opsets X g) (\<lambda>opsets.
           let model =
                 \<lparr>mp_graph = gp,
                  mp_producer_name = producer_name,
                  mp_doc_string = model_doc_string,
                  mp_functions = map snd function_protos,
                  mp_opset_import = opsets\<rparr>
           in
             case (if do_infer_shapes then infer_shapes X model else Inr model) of
               Inl e \<Rightarrow> st_raise e
             | Inr model' \<Rightarrow>
                 if check_level \<noteq> 0
                 then (case check_model X model' (2 \<le> check_level) of
                         Some e \<Rightarrow> st_raise e
                       | None \<Rightarrow> st_return model')
                 else st_return model')))))"

section \<open>Constructing and transforming graphs\<close>

text \<open>
  \<open>results(**kwargs)\<close> is \<open>Graph(kwargs)\<close>: every optional field is \<open>None\<close>, and the
  \<open>default_factory\<close> of \<open>_build_result\<close> allocates a new, empty \<open>Cached\<close> cell.
\<close>

definition results :: "(string \<times> arrow) list \<Rightarrow> world \<Rightarrow> graph \<times> world" where
  "results kwargs w =
     (\<lparr>g_results = kwargs, g_name = None, g_doc_string = None, g_arguments = None,
       g_extra_opset_req = None, g_constructor = None, g_build_result = next_cached w\<rparr>,
      w\<lparr>cached := (cached w)(next_cached w := None), next_cached := Suc (next_cached w)\<rparr>)"

text \<open>
  \<open>dataclasses.replace(self, field=value)\<close> makes a new instance from the fields of
  \<open>self\<close>, the named one replaced; every other field, the \<open>Cached\<close> cell included, is
  passed on as the reference it is.
\<close>

definition with_name :: "graph \<Rightarrow> string \<Rightarrow> graph" where
  "with_name g name = g\<lparr>g_name := Some name\<rparr>"

definition with_doc :: "graph \<Rightarrow> string \<Rightarrow> graph" where
  "with_doc g doc_string = g\<lparr>g_doc_string := Some doc_string\<rparr>"

definition with_arguments :: "graph \<Rightarrow> arrow list \<Rightarrow> graph" where
  "with_arguments g args = g\<lparr>g_arguments := Some args\<rparr>"

text \<open>
  \<open>Graph.with_opset\<close>:
  \<^verbatim>\<open>
    extra_opset_req = set(args)
    if self._extra_opset_req is not None:
        extra_opset_req |= self._extra_opset_req
    return replace(self, _extra_opset_req=extra_opset_req)
  \<close>
  \<open>set(args)\<close> allocates a set object, and \<open>|=\<close> updates that object in place.
\<close>

definition with_opset :: "graph \<Rightarrow> opset list \<Rightarrow> world \<Rightarrow> graph \<times> world" where
  "with_opset g args w =
     (let s = next_set w;
          w1 = w\<lparr>set_objs := (set_objs w)(s := fset_of_list args), next_set := Suc s\<rparr>;
          w2 = (case g_extra_opset_req g of
                  None \<Rightarrow> w1
                | Some e \<Rightarrow> w1\<lparr>set_objs := (set_objs w1)(s := set_objs w1 s |\<union>| set_objs w1 e)\<rparr>)
      in (g\<lparr>g_extra_opset_req := Some s\<rparr>, w2))"

section \<open>Opset requirements and build metadata of a node\<close>

text \<open>
  The property \<open>opset_req\<close> of each node class (\<^verbatim>\<open>_internal_op.py\<close>, \<^verbatim>\<open>function.py\<close>).
  \<open>Argument\<close> and \<open>_Initializer\<close> inherit the one of \<open>_InternalNode\<close>.
\<close>

definition InternalNode_opset_req :: "opset fset" where
  "InternalNode_opset_req = {||}"

definition Constant_opset_req :: "int option \<Rightarrow> opset fset" where
  "Constant_opset_req ver = (case ver of Some v \<Rightarrow> {|('''', v)|} | None \<Rightarrow> {||})"

definition Introduce_opset_req :: "opset fset" where
  "Introduce_opset_req = {|('''', 1)|}"

text \<open>
  \<open>Function.opset_req\<close>:
  \<^verbatim>\<open>
    node_opset_req = Node.opset_req.fget(self)
    return node_opset_req | self.func_graph._get_build_result().opset_req
  \<close>
\<close>

definition Function_opset_req :: "ext \<Rightarrow> func \<Rightarrow> opset fset st" where
  "Function_opset_req X f =
     st_bind (get_build_result X (func_graph f))
       (\<lambda>r. st_return (f_node_opset_req f |\<union>| br_opset_req r))"

fun opset_req :: "ext \<Rightarrow> node \<Rightarrow> opset fset st" where
  "opset_req X (Argument attrs out) = st_return InternalNode_opset_req"
| "opset_req X (Initializer t d out) = st_return InternalNode_opset_req"
| "opset_req X (Constant v ver out) = st_return (Constant_opset_req ver)"
| "opset_req X (Introduce ins outs) = st_return Introduce_opset_req"
| "opset_req X (Function f ins outs) = Function_opset_req X f"
| "opset_req X (OtherNode req ins outs) = st_return req"

text \<open>
  The three accumulators that the builder threads through \<open>update_metadata\<close>: a set, a
  dictionary and a list, all updated in place.
\<close>

record metadata =
  md_opset_req :: "opset fset"
  md_initializers :: "(arrow \<times> ndarray) list"
  md_functions :: "func list"

text \<open>
  Modelled from the spec: \<open>Node.update_metadata\<close>, the base method that every
  \<open>super().update_metadata(...)\<close> below reaches, is not part of the sources under study.
  The specification: "a node contributes its own minimum operator-set requirement"
  to "the running union of opset requirements".
\<close>

definition Node_update_metadata :: "ext \<Rightarrow> node \<Rightarrow> metadata \<Rightarrow> metadata st" where
  "Node_update_metadata X n md =
     st_bind (opset_req X n)
       (\<lambda>req. st_return (md\<lparr>md_opset_req := md_opset_req md |\<union>| req\<rparr>))"

text \<open>
  \<open>update_metadata\<close> of \<open>Argument\<close>, \<open>_Initializer\<close> and \<open>Function\<close>; the other classes
  inherit the base method. \<open>Function.update_metadata\<close>:
  \<^verbatim>\<open>
    super().update_metadata(opset_req, initializers, functions)
    functions.append(self)
    functions.extend(self.func_graph._get_build_result().functions)
  \<close>
\<close>

fun update_metadata :: "ext \<Rightarrow> node \<Rightarrow> metadata \<Rightarrow> metadata st" where
  "update_metadata X (Argument attrs out) md =
     st_bind (Node_update_metadata X (Argument attrs out) md) (\<lambda>md1.
       st_return (case a_default attrs of
                    None \<Rightarrow> md1
                  | Some d \<Rightarrow> md1\<lparr>md_initializers := dict_set (md_initializers md1) out d\<rparr>))"
| "update_metadata X (Initializer t d out) md =
     st_bind (Node_update_metadata X (Initializer t d out) md) (\<lambda>md1.
       st_return (md1\<lparr>md_initializers := dict_set (md_initializers md1) out d\<rparr>))"
| "update_metadata X (Function f ins outs) md =
     st_bind (Node_update_metadata X (Function f ins outs) md) (\<lambda>md1.
       let md2 = md1\<lparr>md_functions := md_functions md1 @ [f]\<rparr> in
       st_bind (get_build_result X (func_graph f)) (\<lambda>r.
         st_return (md2\<lparr>md_functions := md_functions md2 @ br_functions r\<rparr>)))"
| "update_metadata X n md = Node_update_metadata X n md"

text \<open>
  Modelled from the spec: step 3 of the builder, which is not part of the sources under
  study: "for each Node in order, invoke \<open>update_metadata\<close> exactly once, threading a
  shared, mutable accumulation".
\<close>

fun collect_metadata :: "ext \<Rightarrow> node list \<Rightarrow> metadata \<Rightarrow> metadata st" where
  "collect_metadata X [] md = st_return md"
| "collect_metadata X (n # ns) md =
     st_bind (update_metadata X n md) (\<lambda>md1. collect_metadata X ns md1)"

section \<open>Internal operators\<close>

text \<open>Python's \<open>f"{i}"\<close> for a natural number: its decimal digits.\<close>

fun show_nat :: "nat \<Rightarrow> string" where
  "show_nat n =
     (if n < 10 then [char_of (48 + n)]
      else show_nat (n div 10) @ [char_of (48 + n mod 10)])"

declare show_nat.simps [simp del]

text \<open>
  \<open>onnx.helper.make_node\<close>: the name and the doc string are set only when they are
  truthy (neither \<open>None\<close> nor empty).
\<close>

definition truthy :: "string option \<Rightarrow> string option" where
  "truthy s = (case s of None \<Rightarrow> None | Some x \<Rightarrow> if x = [] then None else Some x)"

definition make_node ::
  "string \<Rightarrow> string list \<Rightarrow> string list \<Rightarrow> string option \<Rightarrow> string option \<Rightarrow> node_proto" where
  "make_node t inputs outputs name doc_string =
     \<lparr>np_op_type = t, np_input = inputs, np_output = outputs,
      np_name = truthy name, np_doc_string = truthy doc_string\<rparr>"

text \<open>
  \<open>_Introduce.infer_output_types\<close>:
  \<^verbatim>\<open>
    return {f"outputs_{i}": arr.type
            for i, arr in enumerate(self.inputs.inputs) if arr.type is not None}
  \<close>
\<close>

definition Introduce_infer_output_types :: "arrow list \<Rightarrow> world \<Rightarrow> (string \<times> ty) list" where
  "Introduce_infer_output_types ins w =
     List.map_filter
       (\<lambda>(i, arr). map_option (\<lambda>t. (''outputs_'' @ show_nat i, t)) (var_type (vars w arr)))
       (enumerate 0 ins)"

text \<open>
  Modelled from the spec: the constructor of the base class \<open>Node\<close> is not part of the
  sources under study. The specification (4.2): construction takes the attributes and
  the inputs; "outputs are synthesized internally as fresh Values", for a variadic
  output in the count given at construction; type inference then "assigns Types onto
  already-existing Values", and "absent entries leave that output's Type unknown".
  No propagated value is attached unless the node opts in, which \<open>_Introduce\<close> and
  \<open>Argument\<close> do not.
\<close>

definition construct_Introduce :: "arrow list \<Rightarrow> nat \<Rightarrow> node st" where
  "construct_Introduce ins out_variadic w =
     (let base = next_var w;
          outs = [base ..< base + out_variadic];
          n = Introduce ins outs;
          types = Introduce_infer_output_types ins w
      in (Inr n,
          w\<lparr>vars := (\<lambda>a. if base \<le> a \<and> a < base + out_variadic
                          then \<lparr>var_type = map_of types (''outputs_'' @ show_nat (a - base)),
                                var_value = None, var_name = None, var_op = Some n\<rparr>
                          else vars w a),
            next_var := base + out_variadic\<rparr>))"

text \<open>
  Modelled from the spec: the same constructor, for \<open>Argument\<close>. The specification:
  an Argument "carries an explicit Type (mandatory)", and "constructing a Node whose
  attribute/input record does not satisfy declared arity (missing required attribute,
  ...) fails immediately as a Construction error". The rest is the source:
  \<open>infer_output_types\<close> gives the output \<open>arg\<close> the type attribute, and \<open>post_init\<close>
  renames it when \<open>name\<close> is set.
\<close>

definition construct_Argument :: "arg_attrs \<Rightarrow> node st" where
  "construct_Argument attrs w =
     (case a_type attrs of
        None \<Rightarrow> (Inl ConstructionError, w)
      | Some t \<Rightarrow>
          (let out = next_var w;
               n = Argument attrs out;
               v = \<lparr>var_type = Some t, var_value = None, var_name = None, var_op = Some n\<rparr>;
               v' = (case a_name attrs of None \<Rightarrow> v | Some name \<Rightarrow> v\<lparr>var_name := Some name\<rparr>)
           in (Inr n, w\<lparr>vars := (vars w)(out := v'), next_var := Suc out\<rparr>)))"

text \<open>
  \<open>intros\<close>, \<open>intro\<close>, \<open>unsafe_cast\<close> and \<open>unsafe_reshape\<close> (\<^verbatim>\<open>_internal_op.py\<close>).
  \<open>intros(*args)[-1]\<close> raises \<open>IndexError\<close> on no arguments.
\<close>

definition intros :: "arrow list \<Rightarrow> arrow list st" where
  "intros args =
     st_bind (construct_Introduce args (length args))
       (\<lambda>n. case n of Introduce ins outs \<Rightarrow> st_return outs | _ \<Rightarrow> st_raise TypeError)"

definition intro :: "arrow list \<Rightarrow> arrow st" where
  "intro args =
     st_bind (intros args)
       (\<lambda>outs. if outs = [] then st_raise IndexError else st_return (last outs))"

text \<open>
  \<^verbatim>\<open>
    y = intro(x)
    y.type = typ
    y._value = x._value
    return y
  \<close>
\<close>

definition unsafe_cast :: "arrow \<Rightarrow> ty \<Rightarrow> arrow st" where
  "unsafe_cast x typ =
     st_bind (intro [x]) (\<lambda>y w.
       let w1 = w\<lparr>vars := (vars w)(y := (vars w y)\<lparr>var_type := Some typ\<rparr>)\<rparr>;
           w2 = w1\<lparr>vars := (vars w1)(y := (vars w1 y)\<lparr>var_value := var_value (vars w1 x)\<rparr>)\<rparr>
       in (Inr y, w2))"

text \<open>
  Modelled from the spec: \<open>Var.unwrap_tensor\<close>, of the same class. The specification:
  "a Type is either a tensor (element dtype + shape) ..., or a sequence/optional/map
  composed recursively of Types, or entirely unknown". \<open>unwrap_tensor\<close> gives the
  tensor type of the \<open>Var\<close>; when the type is unknown or is not a tensor there is no
  element type to give, and it raises \<open>TypeError\<close>.
\<close>

definition unwrap_tensor :: "arrow \<Rightarrow> (dtype \<times> dim list option) st" where
  "unwrap_tensor x =
     st_bind (unwrap_type x)
       (\<lambda>t. case t of Tensor d s \<Rightarrow> st_return (d, s) | _ \<Rightarrow> st_raise TypeError)"

text \<open>\<^verbatim>\<open>return unsafe_cast(x, Tensor(x.unwrap_tensor().dtype, shape))\<close>\<close>

definition unsafe_reshape :: "arrow \<Rightarrow> dim list \<Rightarrow> arrow st" where
  "unsafe_reshape x shape =
     st_bind (unwrap_tensor x) (\<lambda>(d, s). unsafe_cast x (Tensor d (Some shape)))"

text \<open>
  \<open>_Introduce.to_onnx\<close>:
  \<^verbatim>\<open>
    assert len(self.inputs.inputs) == len(self.outputs.outputs)
    protos = []
    name = scope.node[self] if self in scope.node else None
    for i in range(len(self.inputs.inputs)):
        protos.append(onnx.helper.make_node("Identity",
            [scope.var[self.inputs.inputs[i]]], [scope.var[self.outputs.outputs[i]]],
            name + f"_id{i}" if name is not None else None, doc_string))
    return protos
  \<close>
  The first failing subscript ends the loop.
\<close>

fun sequence_sum :: "(error + 'a) list \<Rightarrow> error + 'a list" where
  "sequence_sum [] = Inr []"
| "sequence_sum (Inl e # rs) = Inl e"
| "sequence_sum (Inr x # rs) = (case sequence_sum rs of Inl e \<Rightarrow> Inl e | Inr xs \<Rightarrow> Inr (x # xs))"

definition Introduce_proto ::
  "scope \<Rightarrow> string option \<Rightarrow> string option \<Rightarrow> arrow list \<Rightarrow> arrow list \<Rightarrow> nat
    \<Rightarrow> error + node_proto" where
  "Introduce_proto sc doc_string name ins outs i =
     (case dict_get (scope_var sc) (ins ! i) of
        Inl e \<Rightarrow> Inl e
      | Inr a \<Rightarrow>
          (case dict_get (scope_var sc) (outs ! i) of
             Inl e \<Rightarrow> Inl e
           | Inr b \<Rightarrow>
               Inr (make_node ''Identity'' [a] [b]
                      (map_option (\<lambda>nm. nm @ ''_id'' @ show_nat i) name) doc_string)))"

definition Introduce_to_onnx ::
  "node \<Rightarrow> arrow list \<Rightarrow> arrow list \<Rightarrow> scope \<Rightarrow> string option \<Rightarrow> error + node_proto list" where
  "Introduce_to_onnx self ins outs sc doc_string =
     (if length ins \<noteq> length outs then Inl AssertionError
      else
        (let name = map_of (scope_node sc) self
         in sequence_sum (map (Introduce_proto sc doc_string name ins outs) [0 ..< length ins])))"

section \<open>Graph arguments\<close>

text \<open>
  What \<open>arguments_dict\<close> (\<^verbatim>\<open>graph.py\<close>) can be given for one keyword: \<open>None\<close>, a
  \<open>Type\<close>, an array, or any other object. \<open>Tensor.like_array\<close> is the tensor type with
  the array's dtype and shape, as in \<open>_Constant.infer_output_types\<close>.
\<close>

datatype info = NoneInfo | TypeInfo ty | ArrayInfo ndarray | OtherInfo

definition like_array :: "ndarray \<Rightarrow> ty" where
  "like_array arr = Tensor (arr_dtype arr) (Some (map DimInt (arr_shape arr)))"

definition Argument_output :: "node \<Rightarrow> arrow st" where
  "Argument_output n = (case n of Argument attrs out \<Rightarrow> st_return out | _ \<Rightarrow> st_raise TypeError)"

fun arguments_dict_loop ::
  "(string \<times> info) list \<Rightarrow> (string \<times> arrow) list \<Rightarrow> (string \<times> arrow) list st" where
  "arguments_dict_loop [] result = st_return result"
| "arguments_dict_loop ((name, i) # kwargs) result =
     (case i of
        NoneInfo \<Rightarrow>
          st_bind (construct_Argument \<lparr>a_type = None, a_name = Some name, a_default = None\<rparr>) (\<lambda>n.
          st_bind (Argument_output n) (\<lambda>arg.
            arguments_dict_loop kwargs (dict_set result name arg)))
      | TypeInfo t \<Rightarrow>
          st_bind (construct_Argument \<lparr>a_type = Some t, a_name = Some name, a_default = None\<rparr>) (\<lambda>n.
          st_bind (Argument_output n) (\<lambda>arg.
            arguments_dict_loop kwargs (dict_set result name arg)))
      | ArrayInfo arr \<Rightarrow>
          st_bind (construct_Argument
                     \<lparr>a_type = Some (like_array arr), a_name = Some name, a_default = Some arr\<rparr>) (\<lambda>n.
          st_bind (Argument_output n) (\<lambda>arg.
            arguments_dict_loop kwargs (dict_set result name arg)))
      | OtherInfo \<Rightarrow> st_raise TypeError)"

definition arguments_dict :: "(string \<times> info) list \<Rightarrow> (string \<times> arrow) list st" where
  "arguments_dict kwargs = arguments_dict_loop kwargs []"

text \<open>\<open>arguments\<close>: \<^verbatim>\<open>return tuple(arguments_dict(**kwargs).values())\<close>\<close>

definition arguments :: "(string \<times> info) list \<Rightarrow> arrow list st" where
  "arguments kwargs = st_bind (arguments_dict kwargs) (\<lambda>d. st_return (map snd d))"

section \<open>Auxiliary definitions for the proofs\<close>

text \<open>What the loop stores for one node, and the loop as a fold over its items.\<close>

definition adapted ::
  "ext \<Rightarrow> opset list \<Rightarrow> scope \<Rightarrow> node \<Rightarrow> node_proto list \<Rightarrow> node_proto list" where
  "adapted X opsets sc n protos =
     (case adapt_best_effort X n protos opsets (scope_var sc) (scope_node sc) of
        None \<Rightarrow> protos
      | Some best_effort \<Rightarrow> best_effort)"

text \<open>
  The first loop of \<open>to_onnx_model\<close> without the world: the key of a definition, the
  definition a function serializes to once its internal graph is built, and the merge of
  a list of definitions into the dictionary.
\<close>

definition fp_key :: "function_proto \<Rightarrow> string \<times> string" where
  "fp_key p = (fp_domain p, fp_name p)"

definition cached_function_proto :: "func \<Rightarrow> world \<Rightarrow> function_proto option" where
  "cached_function_proto f w =
     (case cached w (g_build_result (func_graph f)) of
        None \<Rightarrow> None
      | Some r \<Rightarrow>
          Some \<lparr>fp_domain = ot_domain (f_op_type f),
                fp_name = ot_identifier (f_op_type f),
                fp_input = map fst (func_inputs f),
                fp_output = map fst (func_outputs f),
                fp_node = concat (map snd (br_nodes r)),
                fp_opset_import =
                  max_opset_policy (br_opset_req r |\<union>| extra_opset_req (func_graph f) w),
                fp_attribute = f_attributes f\<rparr>)"

fun merge_protos ::
  "function_proto option list \<Rightarrow> ((string \<times> string) \<times> function_proto) list
    \<Rightarrow> error + ((string \<times> string) \<times> function_proto) list" where
  "merge_protos [] d = Inr d"
| "merge_protos (None # ps) d = merge_protos ps d"
| "merge_protos (Some p # ps) d =
     (if map_of d (fp_key p) \<noteq> None \<and> Some p \<noteq> map_of d (fp_key p) then Inl RuntimeError
      else merge_protos ps (dict_set d (fp_key p) p))"

definition keyed :: "((string \<times> string) \<times> function_proto) list \<Rightarrow> bool" where
  "keyed d = (\<forall>(k, p) \<in> set d. k = fp_key p)"

text \<open>The arguments in a dictionary are allocated and have a type.\<close>

definition typed_arguments :: "(string \<times> arrow) list \<Rightarrow> world \<Rightarrow> bool" where
  "typed_arguments d w = (\<forall>(n, a) \<in> set d. a < next_var w \<and> var_type (vars w a) \<noteq> None)"

section \<open>A small graph\<close>

text \<open>
  One float32 argument \<open>x\<close> of shape \<open>(N,)\<close> and one result \<open>y = intro(x)\<close>, with the
  build result a builder gives for it; the collaborators adapt nothing and accept
  everything.
\<close>

definition ex_type :: ty where
  "ex_type = Tensor ''float32'' (Some [DimSym ''N''])"

definition ex_argument :: node where
  "ex_argument = Argument \<lparr>a_type = Some ex_type, a_name = Some ''x'', a_default = None\<rparr> 0"

definition ex_identity :: node_proto where
  "ex_identity = make_node ''Identity'' [''x''] [''y''] (Some ''Introduce_0_id0'') None"

definition ex_build_result :: build_result where
  "ex_build_result =
     \<lparr>br_scope = \<lparr>scope_var = [(0, ''x''), (1, ''y'')],
                  scope_node = [(Introduce [0] [1], ''Introduce_0'')]\<rparr>,
      br_nodes = [(ex_argument, []), (Introduce [0] [1], [ex_identity])],
      br_arguments = [0],
      br_results = [1],
      br_opset_req = {|('''', 1)|},
      br_functions = [],
      br_initializers = []\<rparr>"

definition ex_ext :: ext where
  "ex_ext =
     \<lparr>build_main = (\<lambda>g. st_return ex_build_result),
      adapt_best_effort = (\<lambda>n protos opsets var_names node_names. None),
      to_onnx_value_info = (\<lambda>t name concrete. Inr \<lparr>vi_name = name, vi_type = t\<rparr>),
      infer_shapes = Inr,
      check_model = (\<lambda>m full_check. None)\<rparr>"

definition ex_graph :: graph where
  "ex_graph =
     \<lparr>g_results = [(''y'', 1)], g_name = None, g_doc_string = None, g_arguments = None,
      g_extra_opset_req = None, g_constructor = None, g_build_result = 0\<rparr>"

definition ex_world :: world where
  "ex_world =
     \<lparr>vars = (\<lambda>a. \<lparr>var_type = Some ex_type, var_value = None, var_name = None, var_op = None\<rparr>),
      next_var = 2,
      cached = (\<lambda>c. None),
      next_cached = 1,
      set_objs = (\<lambda>s. {||}),
      next_set = 0,
      builds = 0\<rparr>"

definition ex_world_built :: world where
  "ex_world_built = cached_set 0 ex_build_result (ex_world\<lparr>builds := 1\<rparr>)"

definition ex_graph_proto :: graph_proto where
  "ex_graph_proto =
     \<lparr>gp_node = [ex_identity], gp_name = ''steelix_graph'',
      gp_input = [\<lparr>vi_name = ''x'', vi_type = ex_type\<rparr>],
      gp_output = [\<lparr>vi_name = ''y'', vi_type = ex_type\<rparr>],
      gp_initializer = [], gp_doc_string = None\<rparr>"

text \<open>The same graph with two extra requirements, added after it was built.\<close>

definition ex_opset_args :: "opset list" where
  "ex_opset_args = [('''', 17), (''ai.onnx.ml'', 3)]"

definition ex_graph_opset :: graph where
  "ex_graph_opset = fst (with_opset ex_graph ex_opset_args ex_world_built)"

definition ex_world_opset :: world where
  "ex_world_opset = snd (with_opset ex_graph ex_opset_args ex_world_built)"

text \<open>A function node whose internal graph is the small graph.\<close>

definition ex_func :: func where
  "ex_func =
     \<lparr>f_op_type = \<lparr>ot_identifier = ''Twice'', ot_domain = ''steelix.function'', ot_version = 0\<rparr>,
      f_node_opset_req = {|(''steelix.function'', 0)|},
      f_attributes = [],
      func_inputs = [(''in0'', 0)],
      func_outputs = [(''out0'', 1)],
      func_graph = ex_graph\<rparr>"

definition ex_metadata :: metadata where
  "ex_metadata = \<lparr>md_opset_req = {|('''', 13)|}, md_initializers = [], md_functions = []\<rparr>"

text \<open>
  A graph that calls the function twice, \<open>z = Twice(Twice(x))\<close>: two function
  instances with their own internal graphs and equal bodies. And the same graph with a
  second instance whose body is different.
\<close>

definition ex_func_again :: func where
  "ex_func_again = ex_func\<lparr>func_graph := ex_graph\<lparr>g_build_result := 2\<rparr>\<rparr>"

definition ex_func_other :: func where
  "ex_func_other = ex_func\<lparr>func_graph := ex_graph\<lparr>g_build_result := 3\<rparr>\<rparr>"

definition ex_body_other :: build_result where
  "ex_body_other = ex_build_result\<lparr>br_nodes := [(ex_argument, [])]\<rparr>"

definition ex_main_build_result :: "func \<Rightarrow> build_result" where
  "ex_main_build_result second =
     \<lparr>br_scope = \<lparr>scope_var = [(0, ''x''), (1, ''y''), (2, ''z'')], scope_node = []\<rparr>,
      br_nodes =
        [(ex_argument, []),
         (Function ex_func [0] [1], [make_node ''Twice'' [''x''] [''y''] None None]),
         (Function second [1] [2], [make_node ''Twice'' [''y''] [''z''] None None])],
      br_arguments = [0],
      br_results = [2],
      br_opset_req = {|('''', 1), (''steelix.function'', 0)|},
      br_functions = [ex_func, second],
      br_initializers = []\<rparr>"

definition ex_main_graph :: graph where
  "ex_main_graph = ex_graph\<lparr>g_results := [(''z'', 2)], g_build_result := 1\<rparr>"

definition ex_clash_graph :: graph where
  "ex_clash_graph = ex_graph\<lparr>g_results := [(''z'', 2)], g_build_result := 4\<rparr>"

definition ex_world_main :: world where
  "ex_world_main =
     ex_world_built
       \<lparr>cached := (cached ex_world_built)
          (1 := Some (ex_main_build_result ex_func_again),
           2 := Some ex_build_result,
           3 := Some ex_body_other,
           4 := Some (ex_main_build_result ex_func_other)),
        next_cached := 5\<rparr>"

definition ex_function_proto :: function_proto where
  "ex_function_proto =
     \<lparr>fp_domain = ''steelix.function'', fp_name = ''Twice'', fp_input = [''in0''],
      fp_output = [''out0''], fp_node = [ex_identity], fp_opset_import = [('''', 1)],
      fp_attribute = []\<rparr>"

definition ex_main_graph_proto :: graph_proto where
  "ex_main_graph_proto =
     \<lparr>gp_node = [make_node ''Twice'' [''x''] [''y''] None None,
                 make_node ''Twice'' [''y''] [''z''] None None],
      gp_name = ''steelix_graph'',
      gp_input = [\<lparr>vi_name = ''x'', vi_type = ex_type\<rparr>],
      gp_output = [\<lparr>vi_name = ''z'', vi_type = ex_type\<rparr>],
      gp_initializer = [], gp_doc_string = None\<rparr>"

definition ex_model :: model_proto where
  "ex_model =
     \<lparr>mp_graph = ex_main_graph_proto, mp_producer_name = ''steelix'', mp_doc_string = '''',
      mp_functions = [ex_function_proto],
      mp_opset_import = [('''', 1), (''steelix.function'', 0)]\<rparr>"

text \<open>
  The world of the small graph with the type of \<open>x\<close> unknown, and with \<open>x\<close> carrying
  a propagated value.
\<close>

definition ex_world_untyped :: world where
  "ex_world_untyped =
     ex_world\<lparr>vars := (vars ex_world)
       (0 := \<lparr>var_type = None, var_value = None, var_name = Some ''x'', var_op = None\<rparr>)\<rparr>"

definition ex_value :: ndarray where
  "ex_value = \<lparr>arr_dtype = ''float32'', arr_shape = [2], arr_data = [1, 2]\<rparr>"

definition ex_world_valued :: world where
  "ex_world_valued =
     ex_world\<lparr>vars := (vars ex_world)
       (0 := \<lparr>var_type = Some (Tensor ''float32'' None), var_value = Some ex_value,
              var_name = Some ''x'', var_op = None\<rparr>)\<rparr>"

section \<open>Properties\<close>

lemma get_build_result_cached:
  "cached w (g_build_result g) = Some r \<Longrightarrow> get_build_result X g w = (Inr r, w)"
  by (simp add: get_build_result_def)

lemma get_build_result_fills:
  assumes "get_build_result X g w = (Inr r, w1)"
  shows "cached w1 (g_build_result g) = Some r"
proof (cases "cached w (g_build_result g)")
  case None
  then show ?thesis
    using assms
    by (auto simp: get_build_result_def cached_set_def Let_def
             split: prod.splits sum.splits)
next
  case (Some r')
  then show ?thesis
    using assms by (simp add: get_build_result_def)
qed


subsection \<open>Sequencing and the cache\<close>

lemma st_bind_assoc: "st_bind (st_bind m f) k = st_bind m (\<lambda>x. st_bind (f x) k)"
  by (rule ext) (simp add: st_bind_def split: prod.splits sum.splits)

lemma st_bind_Inr:
  "st_bind m k w = (Inr y, w') \<Longrightarrow> \<exists>x w1. m w = (Inr x, w1) \<and> k x w1 = (Inr y, w')"
  by (auto simp: st_bind_def split: prod.splits sum.splits)

lemma st_bind_eval: "m w = (Inr x, w1) \<Longrightarrow> st_bind m k w = k x w1"
  by (simp add: st_bind_def)

lemma st_bind_fail: "m w = (Inl e, w1) \<Longrightarrow> st_bind m k w = (Inl e, w1)"
  by (simp add: st_bind_def)

text \<open>A computation is "pure at w" when it leaves w as it is.\<close>

lemma st_bind_pure:
  assumes "snd (m w) = w" and "\<And>x. snd (k x w) = w"
  shows "snd (st_bind m k w) = w"
  using assms by (cases "m w") (auto simp: st_bind_def split: sum.splits)

lemma get_opset_req_pure:
  "cached w (g_build_result g) = Some r \<Longrightarrow> snd (get_opset_req X g w) = w"
  by (simp add: get_opset_req_def st_bind_def get_build_result_cached)

lemma get_opsets_pure:
  "cached w (g_build_result g) = Some r \<Longrightarrow> snd (get_opsets X g w) = w"
  by (simp add: get_opsets_def get_opset_req_def st_bind_def st_return_def get_build_result_cached)

lemma named_items_pure:
  "cached w (g_build_result g) = Some r \<Longrightarrow> snd (named_items X g items d w) = w"
proof (induction items arbitrary: d)
  case Nil
  then show ?case by (simp add: st_return_def)
next
  case (Cons it items)
  obtain a v where it: "it = (a, v)" by (cases it)
  show ?case
    using Cons
    by (simp add: it st_bind_def get_build_result_cached st_raise_def split: sum.splits)
qed

lemma adapt_loop_pure:
  "cached w (g_build_result g) = Some r \<Longrightarrow> snd (adapt_loop X g items cn w) = w"
proof (induction items arbitrary: cn)
  case Nil
  then show ?case by (simp add: st_return_def)
next
  case (Cons it items)
  obtain n ps where it: "it = (n, ps)" by (cases it)
  have o: "\<exists>ops. get_opsets X g w = (Inr ops, w)"
    using Cons.prems
    by (simp add: get_opsets_def get_opset_req_def st_bind_def st_return_def get_build_result_cached)
  then obtain ops where ops: "get_opsets X g w = (Inr ops, w)" by blast
  show ?case
    using Cons
    by (simp add: it st_bind_def ops get_build_result_cached)
qed

lemma value_infos_pure: "snd (value_infos X c items w) = w"
proof (induction items)
  case Nil
  then show ?case by (simp add: st_return_def)
next
  case (Cons it items)
  obtain n a where it: "it = (n, a)" by (cases it)
  show ?case
    using Cons
    by (cases "value_infos X c items w")
       (auto simp: it st_bind_def unwrap_type_def st_raise_def st_return_def
             split: option.splits sum.splits)
qed

lemma get_results_pure:
  "cached w (g_build_result g) = Some r \<Longrightarrow> snd (get_results X g w) = w"
  by (simp add: get_results_def st_bind_def get_build_result_cached named_items_pure)

lemma get_arguments_pure:
  "cached w (g_build_result g) = Some r \<Longrightarrow> snd (get_arguments X g w) = w"
  by (simp add: get_arguments_def st_bind_def get_build_result_cached named_items_pure)

lemma get_initializers_by_name_pure:
  "cached w (g_build_result g) = Some r \<Longrightarrow> snd (get_initializers_by_name X g w) = w"
  by (simp add: get_initializers_by_name_def st_bind_def get_build_result_cached named_items_pure)

lemma get_adapted_nodes_pure:
  "cached w (g_build_result g) = Some r \<Longrightarrow> snd (get_adapted_nodes X g w) = w"
  by (simp add: get_adapted_nodes_def st_bind_def get_build_result_cached adapt_loop_pure)

lemma st_return_pure: "snd (st_return x w) = w" by (simp add: st_return_def)
lemma st_raise_pure: "snd (st_raise e w) = w" by (simp add: st_raise_def)



lemma to_onnx_pure:
  assumes "cached w (g_build_result g) = Some r"
  shows "snd (to_onnx X g c w) = w"
  unfolding to_onnx_def Let_def
  by (auto intro!: st_bind_pure get_results_pure [OF assms] get_arguments_pure [OF assms]
        value_infos_pure get_initializers_by_name_pure [OF assms]
        get_adapted_nodes_pure [OF assms] st_return_pure st_raise_pure)

lemma bind_build_rerun:
  assumes "st_bind (get_build_result X g) K w = (Inr p, w')"
  shows "\<exists>r w1. get_build_result X g w = (Inr r, w1) \<and> cached w1 (g_build_result g) = Some r
           \<and> st_bind (get_build_result X g) K w1 = (Inr p, w')"
proof -
  from st_bind_Inr [OF assms] obtain r w1 where
    a: "get_build_result X g w = (Inr r, w1)" and b: "K r w1 = (Inr p, w')" by blast
  have c: "cached w1 (g_build_result g) = Some r" by (rule get_build_result_fills [OF a])
  have "st_bind (get_build_result X g) K w1 = K r w1"
    by (simp add: st_bind_def get_build_result_cached [OF c])
  with a b c show ?thesis by simp
qed

lemma to_onnx_build_first:
  "to_onnx X g c = st_bind (get_build_result X g)
     (\<lambda>r. st_bind (named_items X g (map (\<lambda>a. (a, a)) (br_results r)) [])
        (\<lambda>res0. if res0 = [] then st_raise ValueError
       else
         st_bind (get_arguments X g) (\<lambda>args.
         st_bind (value_infos X c args) (\<lambda>argument_info.
         st_bind (get_results X g) (\<lambda>res.
         st_bind (value_infos X c res) (\<lambda>result_info.
           let name = (case g_name g of
                         None \<Rightarrow> ''steelix_graph''
                       | Some n \<Rightarrow> if n = [] then ''steelix_graph'' else n)
           in
             st_bind (get_initializers_by_name X g) (\<lambda>inits.
               let initializer_tensors =
                     map (\<lambda>(name, arr). \<lparr>tp_name = name, tp_array = arr\<rparr>) inits
               in
                 st_bind (get_adapted_nodes X g) (\<lambda>adapted.
                   st_return
                     \<lparr>gp_node = concat (map snd adapted),
                      gp_name = name,
                      gp_input = argument_info,
                      gp_output = result_info,
                      gp_initializer = initializer_tensors,
                      gp_doc_string = g_doc_string g\<rparr>))))))))"
  unfolding to_onnx_def get_results_def [of X g] st_bind_assoc ..

lemma to_onnx_after_build:
  assumes "get_build_result X g w = (Inr r, w1)"
  shows "to_onnx X g c w = to_onnx X g c w1"
proof -
  have c: "cached w1 (g_build_result g) = Some r"
    by (rule get_build_result_fills [OF assms])
  show ?thesis
    unfolding to_onnx_build_first
    by (simp add: st_bind_def assms get_build_result_cached [OF c])
qed

lemma to_onnx_rerun:
  assumes "to_onnx X g c w = (Inr p, w')"
  shows "to_onnx X g c w' = (Inr p, w')"
proof -
  from assms bind_build_rerun [of X g _ w p w'] obtain r w1 where
    a: "cached w1 (g_build_result g) = Some r" and b: "to_onnx X g c w1 = (Inr p, w')"
    unfolding to_onnx_build_first by blast
  from to_onnx_pure [OF a, of X c] b have "w' = w1" by simp
  with b show ?thesis by simp
qed

subsection \<open>The maximum-requested policy\<close>

lemma max_opset_policy_keys: "map fst (max_opset_policy req) = sorted_list_of_fset (fst |`| req)"
  by (simp add: max_opset_policy_def comp_def)

lemma max_opset_policy_distinct: "distinct (map fst (max_opset_policy req))"
  by (simp add: max_opset_policy_keys sorted_list_of_fset.rep_eq)

lemma versions_mem:
  "v |\<in>| snd |`| ffilter (\<lambda>p. fst p = d) req \<longleftrightarrow> (d, v) |\<in>| req"
proof
  assume "v |\<in>| snd |`| ffilter (\<lambda>p. fst p = d) req"
  then obtain p where "p |\<in>| req" "fst p = d" "snd p = v" by auto
  then show "(d, v) |\<in>| req" by (cases p) simp
next
  assume "(d, v) |\<in>| req"
  then have "(d, v) |\<in>| ffilter (\<lambda>p. fst p = d) req" by simp
  then have "snd (d, v) |\<in>| snd |`| ffilter (\<lambda>p. fst p = d) req" by (rule fimageI)
  then show "v |\<in>| snd |`| ffilter (\<lambda>p. fst p = d) req" by simp
qed

lemma max_opset_policy_mem:
  "(d, v) \<in> set (max_opset_policy req) \<longleftrightarrow>
     (d, v) |\<in>| req \<and> (\<forall>v'. (d, v') |\<in>| req \<longrightarrow> v' \<le> v)"
proof
  let ?V = "snd |`| ffilter (\<lambda>p. fst p = d) req"
  assume "(d, v) \<in> set (max_opset_policy req)"
  then have d: "d |\<in>| fst |`| req" and v: "v = fMax ?V"
    by (auto simp: max_opset_policy_def)
  from d obtain b where "(d, b) |\<in>| req" by auto
  then have "b |\<in>| ?V" by (simp only: versions_mem)
  then have ne: "?V \<noteq> {||}" by blast
  from fMax_in [OF ne] have "v |\<in>| ?V" by (simp add: v)
  then have 1: "(d, v) |\<in>| req" by (simp only: versions_mem)
  have 2: "\<forall>v'. (d, v') |\<in>| req \<longrightarrow> v' \<le> v"
  proof (intro allI impI)
    fix v' assume "(d, v') |\<in>| req"
    then have "v' |\<in>| ?V" by (simp only: versions_mem)
    then show "v' \<le> v" unfolding v by (rule fMax_ge)
  qed
  from 1 2 show "(d, v) |\<in>| req \<and> (\<forall>v'. (d, v') |\<in>| req \<longrightarrow> v' \<le> v)" ..
next
  let ?V = "snd |`| ffilter (\<lambda>p. fst p = d) req"
  assume a: "(d, v) |\<in>| req \<and> (\<forall>v'. (d, v') |\<in>| req \<longrightarrow> v' \<le> v)"
  then have m: "v |\<in>| ?V" by (simp only: versions_mem)
  have "fMax ?V = v"
  proof (rule fMax_eqI)
    fix y assume "y |\<in>| ?V"
    then have "(d, y) |\<in>| req" by (simp only: versions_mem)
    with a show "y \<le> v" by blast
  next
    show "v |\<in>| ?V" by (rule m)
  qed
  moreover from a have "d |\<in>| fst |`| req" by force
  ultimately show "(d, v) \<in> set (max_opset_policy req)"
    by (auto simp: max_opset_policy_def)
qed

lemma get_opsets_Inr:
  assumes "get_opsets X g w = (Inr opsets, w')"
  shows "\<exists>r. cached w' (g_build_result g) = Some r \<and>
           opsets = max_opset_policy (br_opset_req r |\<union>| extra_opset_req g w')"
proof -
  from assms obtain r where a: "get_build_result X g w = (Inr r, w')"
    and b: "opsets = max_opset_policy (br_opset_req r |\<union>| extra_opset_req g w')"
    by (auto simp: get_opsets_def get_opset_req_def st_bind_def st_return_def
             split: prod.splits sum.splits)
  from get_build_result_fills [OF a] b show ?thesis by blast
qed

subsection \<open>The small graph, evaluated\<close>

lemma ex_build: "get_build_result ex_ext ex_graph ex_world = (Inr ex_build_result, ex_world_built)"
  by (simp add: get_build_result_def ex_ext_def ex_graph_def ex_world_def ex_world_built_def
        cached_set_def st_return_def)

lemma ex_cached: "cached ex_world_built (g_build_result ex_graph) = Some ex_build_result"
  by (simp add: ex_world_built_def cached_set_def ex_graph_def)

lemmas ex_rebuild = get_build_result_cached [OF ex_cached]

lemma ex_max_opset_policy: "max_opset_policy {|('''', 1)|} = [('''', 1)]"
  by code_simp

lemma ex_get_opsets: "get_opsets ex_ext ex_graph ex_world_built = (Inr [('''', 1)], ex_world_built)"
  by (simp add: get_opsets_def get_opset_req_def st_bind_def st_return_def ex_rebuild
        extra_opset_req_def ex_graph_def [THEN arg_cong, of g_extra_opset_req]
        ex_build_result_def [THEN arg_cong, of br_opset_req] ex_max_opset_policy)

lemma ex_get_results: "get_results ex_ext ex_graph ex_world_built = (Inr [(''y'', 1)], ex_world_built)"
  by (simp add: get_results_def st_bind_def st_return_def ex_rebuild dict_get_def
        ex_build_result_def [THEN arg_cong, of br_results]
        ex_build_result_def [THEN arg_cong, of br_scope])

lemma ex_get_arguments: "get_arguments ex_ext ex_graph ex_world_built = (Inr [(''x'', 0)], ex_world_built)"
  by (simp add: get_arguments_def st_bind_def st_return_def ex_rebuild dict_get_def
        ex_build_result_def [THEN arg_cong, of br_arguments]
        ex_build_result_def [THEN arg_cong, of br_scope])

lemma ex_get_initializers: "get_initializers_by_name ex_ext ex_graph ex_world_built = (Inr [], ex_world_built)"
  by (simp add: get_initializers_by_name_def st_bind_def st_return_def ex_rebuild
        ex_build_result_def [THEN arg_cong, of br_initializers])

lemma ex_get_adapted_nodes:
  "get_adapted_nodes ex_ext ex_graph ex_world_built = (Inr (br_nodes ex_build_result), ex_world_built)"
  by (simp add: get_adapted_nodes_def st_bind_def st_return_def ex_rebuild ex_get_opsets
        ex_build_result_def [THEN arg_cong, of br_nodes]
        ex_ext_def [THEN arg_cong, of adapt_best_effort] ex_argument_def)

lemma ex_value_infos:
  "value_infos ex_ext c [(n, a)] ex_world_built = (Inr [\<lparr>vi_name = n, vi_type = ex_type\<rparr>], ex_world_built)"
  by (simp add: st_bind_def st_return_def unwrap_type_def ex_world_built_def cached_set_def
        ex_world_def ex_ext_def)

lemma ex_to_onnx_built: "to_onnx ex_ext ex_graph True ex_world_built = (Inr ex_graph_proto, ex_world_built)"
  by (simp add: to_onnx_def st_bind_def st_return_def ex_get_results ex_get_arguments
        ex_get_initializers ex_get_adapted_nodes ex_value_infos ex_graph_proto_def
        ex_graph_def [THEN arg_cong, of g_name] ex_graph_def [THEN arg_cong, of g_doc_string]
        ex_build_result_def [THEN arg_cong, of br_nodes] del: value_infos.simps)

lemma ex_to_onnx: "to_onnx ex_ext ex_graph True ex_world = (Inr ex_graph_proto, ex_world_built)"
  by (simp add: to_onnx_after_build [OF ex_build] ex_to_onnx_built)

subsection \<open>C1: building is memoized\<close>

text \<open>
  C1. Building is memoized and idempotent. When a query of the build result of a graph
  returns \<open>r\<close>, the next query returns the same \<open>r\<close> (the same instruction sequence
  \<open>br_nodes r\<close> and the same initializers \<open>br_initializers r\<close>) and leaves the world
  as it is: no cell is written and the builder is not called (\<open>builds\<close> keeps its
  value). Likewise a second \<open>to_onnx\<close> returns the same \<open>GraphProto\<close> as the first and
  changes nothing. The first query is the only one that can fail: a failed build
  leaves the cell empty.
\<close>

theorem build_memoized:
  "(get_build_result X g w = (Inr r, w1) \<longrightarrow>
      get_build_result X g w1 = (Inr r, w1)) \<and>
   (to_onnx X g concrete w = (Inr p, w2) \<longrightarrow>
      to_onnx X g concrete w2 = (Inr p, w2))"
proof (intro conjI impI)
  assume a: "get_build_result X g w = (Inr r, w1)"
  show "get_build_result X g w1 = (Inr r, w1)"
    by (rule get_build_result_cached [OF get_build_result_fills [OF a]])
next
  assume "to_onnx X g concrete w = (Inr p, w2)"
  then show "to_onnx X g concrete w2 = (Inr p, w2)"
    by (rule to_onnx_rerun)
qed

theorem build_memoized_witness:
  "get_build_result ex_ext ex_graph ex_world = (Inr ex_build_result, ex_world_built) \<and>
   get_build_result ex_ext ex_graph ex_world_built = (Inr ex_build_result, ex_world_built) \<and>
   builds ex_world_built = 1 \<and>
   to_onnx ex_ext ex_graph True ex_world = (Inr ex_graph_proto, ex_world_built) \<and>
   to_onnx ex_ext ex_graph True ex_world_built = (Inr ex_graph_proto, ex_world_built)"
proof -
  note t = build_memoized [of ex_ext ex_graph ex_world ex_build_result ex_world_built
             True ex_graph_proto ex_world_built]
  have c: "get_build_result ex_ext ex_graph ex_world_built = (Inr ex_build_result, ex_world_built)"
    using t ex_build by blast
  have d: "to_onnx ex_ext ex_graph True ex_world_built = (Inr ex_graph_proto, ex_world_built)"
    using t ex_to_onnx by blast
  have e: "builds ex_world_built = 1"
    by (simp add: ex_world_built_def cached_set_def ex_world_def)
  from ex_build ex_to_onnx c d e show ?thesis by blast
qed

subsection \<open>C3: one version per domain, the maximum requested\<close>

lemma ex_opset_graph:
  "ex_graph_opset = ex_graph\<lparr>g_extra_opset_req := Some 0\<rparr>"
  by (simp add: ex_graph_opset_def with_opset_def Let_def ex_world_built_def cached_set_def
        ex_world_def ex_graph_def)

lemma ex_opset_world:
  "ex_world_opset =
     ex_world_built\<lparr>set_objs := (set_objs ex_world_built)(0 := {|('''', 17), (''ai.onnx.ml'', 3)|}),
                    next_set := 1\<rparr>"
  by (simp add: ex_world_opset_def with_opset_def Let_def ex_world_built_def cached_set_def
        ex_world_def ex_graph_def ex_opset_args_def)

lemma ex_opset_cached:
  "cached ex_world_opset (g_build_result ex_graph_opset) = Some ex_build_result"
  by (simp add: ex_opset_world ex_opset_graph ex_cached)

lemma ex_opset_policy:
  "max_opset_policy {|('''', 1), ('''', 17), (''ai.onnx.ml'', 3)|} = [('''', 17), (''ai.onnx.ml'', 3)]"
  by code_simp

lemma ex_opset_get_opsets:
  "get_opsets ex_ext ex_graph_opset ex_world_opset =
     (Inr [('''', 17), (''ai.onnx.ml'', 3)], ex_world_opset)"
proof -
  have "extra_opset_req ex_graph_opset ex_world_opset = {|('''', 17), (''ai.onnx.ml'', 3)|}"
    by (simp add: extra_opset_req_def ex_opset_graph ex_opset_world)
  then show ?thesis
    by (simp add: get_opsets_def get_opset_req_def st_bind_def st_return_def
          get_build_result_cached [OF ex_opset_cached]
          ex_build_result_def [THEN arg_cong, of br_opset_req] ex_opset_policy)
qed

text \<open>
  C3. When \<open>get_opsets\<close> returns, the build result \<open>r\<close> of the graph is in its cell,
  the returned dictionary has every domain once, and it holds the pair (domain, version)
  exactly when that pair is required, by the build (\<open>br_opset_req r\<close>) or by the graph
  itself (the set given through \<open>with_opset\<close>), and no required version of that domain
  is greater.
\<close>

theorem get_opsets_max:
  assumes "get_opsets X g w = (Inr opsets, w')"
  shows "\<exists>r. cached w' (g_build_result g) = Some r \<and>
           distinct (map fst opsets) \<and>
           (\<forall>d v. (d, v) \<in> set opsets \<longleftrightarrow>
              (d, v) |\<in>| br_opset_req r |\<union>| extra_opset_req g w' \<and>
              (\<forall>v'. (d, v') |\<in>| br_opset_req r |\<union>| extra_opset_req g w' \<longrightarrow> v' \<le> v))"
proof -
  from get_opsets_Inr [OF assms] obtain r where
    c: "cached w' (g_build_result g) = Some r" and
    o: "opsets = max_opset_policy (br_opset_req r |\<union>| extra_opset_req g w')" by blast
  have "distinct (map fst opsets)" unfolding o by (rule max_opset_policy_distinct)
  moreover have "\<forall>d v. (d, v) \<in> set opsets \<longleftrightarrow>
              (d, v) |\<in>| br_opset_req r |\<union>| extra_opset_req g w' \<and>
              (\<forall>v'. (d, v') |\<in>| br_opset_req r |\<union>| extra_opset_req g w' \<longrightarrow> v' \<le> v)"
    unfolding o by (intro allI max_opset_policy_mem)
  ultimately show ?thesis using c by blast
qed


theorem get_opsets_max_witness:
  "get_opsets ex_ext ex_graph_opset ex_world_opset =
     (Inr [('''', 17), (''ai.onnx.ml'', 3)], ex_world_opset) \<and>
   (\<exists>r. cached ex_world_opset (g_build_result ex_graph_opset) = Some r \<and>
        distinct (map fst [('''', 17::int), (''ai.onnx.ml'', 3)]) \<and>
        (('''', 17) |\<in>| br_opset_req r |\<union>| extra_opset_req ex_graph_opset ex_world_opset) \<and>
        (\<forall>v'. ('''', v') |\<in>| br_opset_req r |\<union>| extra_opset_req ex_graph_opset ex_world_opset
              \<longrightarrow> v' \<le> 17))"
proof -
  from get_opsets_max [OF ex_opset_get_opsets] obtain r where
    c: "cached ex_world_opset (g_build_result ex_graph_opset) = Some r" and
    d: "distinct (map fst [('''', 17::int), (''ai.onnx.ml'', 3)])" and
    m: "\<forall>d v. (d, v) \<in> set [('''', 17), (''ai.onnx.ml'', 3)] \<longleftrightarrow>
              (d, v) |\<in>| br_opset_req r |\<union>| extra_opset_req ex_graph_opset ex_world_opset \<and>
              (\<forall>v'. (d, v') |\<in>| br_opset_req r |\<union>| extra_opset_req ex_graph_opset ex_world_opset
                    \<longrightarrow> v' \<le> v)"
    by blast
  have "('''', 17) \<in> set [('''', 17::int), (''ai.onnx.ml'', 3)]" by simp
  with m have
    "('''', 17) |\<in>| br_opset_req r |\<union>| extra_opset_req ex_graph_opset ex_world_opset \<and>
     (\<forall>v'. ('''', v') |\<in>| br_opset_req r |\<union>| extra_opset_req ex_graph_opset ex_world_opset
           \<longrightarrow> v' \<le> 17)"
    by blast
  with c d ex_opset_get_opsets show ?thesis by blast
qed

subsection \<open>C9: the with-transformations change one field and nothing of the old graph\<close>

text \<open>
  C9. Each of \<open>with_name\<close>, \<open>with_doc\<close>, \<open>with_arguments\<close> and \<open>with_opset\<close> returns a
  graph that differs from \<open>g\<close> in the one field it sets: putting the old value back
  gives \<open>g\<close>. The graph \<open>g\<close> is a frozen value and is not assigned to. \<open>with_opset\<close>
  is the one that touches mutable objects: it allocates a new set object, whose content
  becomes the given requirements united with those \<open>g\<close> had; the set object of \<open>g\<close>
  and every other object allocated before keep their content, so the extra requirements
  of \<open>g\<close> read the same after the call. The hypothesis says that the set object of
  \<open>g\<close>, if it has one, was allocated before the call. The \<open>Cached\<close> cell is among the
  fields passed on: the new graph shares it with \<open>g\<close>.
\<close>

theorem with_transformations_frame:
  assumes "\<forall>e. g_extra_opset_req g = Some e \<longrightarrow> e < next_set w"
  shows
    "g_name (with_name g name) = Some name \<and> (with_name g name)\<lparr>g_name := g_name g\<rparr> = g \<and>
     g_doc_string (with_doc g doc) = Some doc \<and> (with_doc g doc)\<lparr>g_doc_string := g_doc_string g\<rparr> = g \<and>
     g_arguments (with_arguments g args) = Some args \<and>
       (with_arguments g args)\<lparr>g_arguments := g_arguments g\<rparr> = g \<and>
     (\<forall>g' w'. with_opset g reqs w = (g', w') \<longrightarrow>
        g'\<lparr>g_extra_opset_req := g_extra_opset_req g\<rparr> = g \<and>
        g_extra_opset_req g' = Some (next_set w) \<and>
        extra_opset_req g' w' = fset_of_list reqs |\<union>| extra_opset_req g w \<and>
        extra_opset_req g w' = extra_opset_req g w \<and>
        (\<forall>s. s < next_set w \<longrightarrow> set_objs w' s = set_objs w s) \<and>
        vars w' = vars w \<and> cached w' = cached w)"
proof -
  have n: "g_name (with_name g name) = Some name \<and> (with_name g name)\<lparr>g_name := g_name g\<rparr> = g"
    by (simp add: with_name_def)
  have d: "g_doc_string (with_doc g doc) = Some doc \<and>
           (with_doc g doc)\<lparr>g_doc_string := g_doc_string g\<rparr> = g"
    by (simp add: with_doc_def)
  have a: "g_arguments (with_arguments g args) = Some args \<and>
           (with_arguments g args)\<lparr>g_arguments := g_arguments g\<rparr> = g"
    by (simp add: with_arguments_def)
  have o: "\<forall>g' w'. with_opset g reqs w = (g', w') \<longrightarrow>
        g'\<lparr>g_extra_opset_req := g_extra_opset_req g\<rparr> = g \<and>
        g_extra_opset_req g' = Some (next_set w) \<and>
        extra_opset_req g' w' = fset_of_list reqs |\<union>| extra_opset_req g w \<and>
        extra_opset_req g w' = extra_opset_req g w \<and>
        (\<forall>s. s < next_set w \<longrightarrow> set_objs w' s = set_objs w s) \<and>
        vars w' = vars w \<and> cached w' = cached w"
  proof (cases "g_extra_opset_req g")
    case None
    then show ?thesis
      by (auto simp: with_opset_def Let_def extra_opset_req_def)
  next
    case (Some e)
    with assms have "e < next_set w" by simp
    with Some show ?thesis
      by (auto simp: with_opset_def Let_def extra_opset_req_def)
  qed
  from n d a o show ?thesis by blast
qed

lemma ex_graph_extra: "\<forall>e. g_extra_opset_req ex_graph_opset = Some e \<longrightarrow> e < next_set ex_world_opset"
  by (simp add: ex_opset_graph ex_opset_world)

theorem with_transformations_frame_witness:
  "g_extra_opset_req ex_graph_opset = Some 0 \<and> 0 < next_set ex_world_opset \<and>
   g_name (with_name ex_graph_opset ''main'') = Some ''main'' \<and>
   (with_name ex_graph_opset ''main'')\<lparr>g_name := g_name ex_graph_opset\<rparr> = ex_graph_opset \<and>
   extra_opset_req (fst (with_opset ex_graph_opset [(''ai.onnx.ml'', 2), ('''', 18)] ex_world_opset))
       (snd (with_opset ex_graph_opset [(''ai.onnx.ml'', 2), ('''', 18)] ex_world_opset))
     = {|(''ai.onnx.ml'', 2), ('''', 18), ('''', 17), (''ai.onnx.ml'', 3)|} \<and>
   extra_opset_req ex_graph_opset
       (snd (with_opset ex_graph_opset [(''ai.onnx.ml'', 2), ('''', 18)] ex_world_opset))
     = {|('''', 17), (''ai.onnx.ml'', 3)|}"
proof -
  obtain g' w' where
    e: "with_opset ex_graph_opset [(''ai.onnx.ml'', 2), ('''', 18)] ex_world_opset = (g', w')"
    by (cases "with_opset ex_graph_opset [(''ai.onnx.ml'', 2), ('''', 18)] ex_world_opset")
  have x: "extra_opset_req ex_graph_opset ex_world_opset = {|('''', 17), (''ai.onnx.ml'', 3)|}"
    by (simp add: extra_opset_req_def ex_opset_graph ex_opset_world)
  note t = with_transformations_frame [OF ex_graph_extra,
             of "''main''" "''doc''" "[]" "[(''ai.onnx.ml'', 2), ('''', 18)]"]
  from t e have
    "extra_opset_req g' w' =
       fset_of_list [(''ai.onnx.ml'', 2), ('''', 18)] |\<union>| extra_opset_req ex_graph_opset ex_world_opset"
    and "extra_opset_req ex_graph_opset w' = extra_opset_req ex_graph_opset ex_world_opset"
    by blast+
  with x have
    xa: "extra_opset_req g' w' = {|(''ai.onnx.ml'', 2), ('''', 18), ('''', 17), (''ai.onnx.ml'', 3)|}"
    and xb: "extra_opset_req ex_graph_opset w' = {|('''', 17), (''ai.onnx.ml'', 3)|}"
    by auto
  have h1: "g_extra_opset_req ex_graph_opset = Some 0" and h2: "0 < next_set ex_world_opset"
    by (simp_all add: ex_opset_graph ex_opset_world)
  note n1 = t [THEN conjunct1]
  note n2 = t [THEN conjunct2, THEN conjunct1]
  from e have f: "fst (with_opset ex_graph_opset [(''ai.onnx.ml'', 2), ('''', 18)] ex_world_opset) = g'"
    and s: "snd (with_opset ex_graph_opset [(''ai.onnx.ml'', 2), ('''', 18)] ex_world_opset) = w'"
    by simp_all
  show ?thesis unfolding f s by (intro conjI h1 h2 n1 n2 xa xb)
qed

subsection \<open>Dictionary updates\<close>

lemma map_of_dict_set: "map_of (dict_set d k v) = (map_of d)(k \<mapsto> v)"
  by (induction d) (auto simp: fun_eq_iff)

lemma keys_dict_set:
  "map fst (dict_set d k v) = (if k \<in> fst ` set d then map fst d else map fst d @ [k])"
proof (induction d)
  case Nil
  show ?case by simp
next
  case (Cons p d)
  then show ?case by (cases p) (fastforce simp: image_iff)
qed

subsection \<open>The adaptation loop on a built graph\<close>

lemma adapt_loop_cached:
  assumes c: "cached w (g_build_result g) = Some r"
  shows "adapt_loop X g items cn w =
           (Inr (fold (\<lambda>(n, protos) cn. dict_set cn n
                    (adapted X (max_opset_policy (br_opset_req r |\<union>| extra_opset_req g w))
                       (br_scope r) n protos)) items cn), w)"
proof (induction items arbitrary: cn)
  case Nil
  show ?case by (simp add: st_return_def)
next
  case (Cons it items)
  obtain n ps where it: "it = (n, ps)" by (cases it)
  have o: "get_opsets X g w =
             (Inr (max_opset_policy (br_opset_req r |\<union>| extra_opset_req g w)), w)"
    by (simp add: get_opsets_def get_opset_req_def st_bind_def st_return_def
          get_build_result_cached [OF c])
  show ?case
    by (simp add: it st_bind_def o get_build_result_cached [OF c] Cons.IH adapted_def)
qed

lemma fold_dict_set_keys:
  "fst ` set items \<subseteq> fst ` set cn \<Longrightarrow>
   map fst (fold (\<lambda>(n, protos) cn. dict_set cn n (F n protos)) items cn) = map fst cn"
proof (induction items arbitrary: cn)
  case Nil
  show ?case by simp
next
  case (Cons it items)
  obtain n ps where it: "it = (n, ps)" by (cases it)
  from Cons.prems have k: "map fst (dict_set cn n (F n ps)) = map fst cn"
    by (simp add: it keys_dict_set)
  have "fst ` set (dict_set cn n (F n ps)) = set (map fst (dict_set cn n (F n ps)))" by simp
  also have "\<dots> = fst ` set cn" unfolding k by simp
  finally have "fst ` set items \<subseteq> fst ` set (dict_set cn n (F n ps))"
    using Cons.prems by (simp add: it)
  from Cons.IH [OF this] k show ?case by (simp add: it)
qed

lemma fold_dict_set_other:
  "k \<notin> fst ` set items \<Longrightarrow>
   map_of (fold (\<lambda>(n, protos) cn. dict_set cn n (F n protos)) items cn) k = map_of cn k"
proof (induction items arbitrary: cn)
  case Nil
  show ?case by simp
next
  case (Cons it items)
  obtain n ps where it: "it = (n, ps)" by (cases it)
  from Cons.prems have "k \<notin> fst ` set items" and "k \<noteq> n" by (auto simp: it)
  with Cons.IH [of "dict_set cn n (F n ps)"] show ?case
    by (simp add: it map_of_dict_set)
qed

lemma fold_dict_set_item:
  "distinct (map fst items) \<Longrightarrow> (n, protos) \<in> set items \<Longrightarrow>
   map_of (fold (\<lambda>(n, protos) cn. dict_set cn n (F n protos)) items cn) n = Some (F n protos)"
proof (induction items arbitrary: cn)
  case Nil
  then show ?case by simp
next
  case (Cons it items)
  obtain m ps where it: "it = (m, ps)" by (cases it)
  from Cons.prems have d: "distinct (map fst items)" and m: "m \<notin> fst ` set items"
    by (auto simp: it)
  show ?case
  proof (cases "(n, protos) = (m, ps)")
    case True
    with m have "n \<notin> fst ` set items" by simp
    from fold_dict_set_other [OF this, of F "dict_set cn m (F m ps)"]
    have "map_of (fold (\<lambda>(n, protos) cn. dict_set cn n (F n protos)) items
                    (dict_set cn m (F m ps))) n = map_of (dict_set cn m (F m ps)) n" .
    with True show ?thesis
      by (simp add: it map_of_dict_set)
  next
    case False
    with Cons.prems have "(n, protos) \<in> set items" by (auto simp: it)
    from Cons.IH [OF d this] show ?thesis by (simp add: it)
  qed
qed

subsection \<open>C4: adaptation is best-effort\<close>

text \<open>
  C4. For a graph whose build result \<open>r\<close> exists (the query of it returns \<open>r\<close>),
  \<open>get_adapted_nodes\<close> returns a dictionary and raises nothing; the dictionary has the
  nodes of \<open>br_nodes r\<close> as its keys, in the same order; and a node for which
  \<open>adapt_best_effort\<close> returns \<open>None\<close> has its original instructions in it.
  \<open>br_nodes r\<close> is a Python dictionary, so its keys are distinct.
\<close>

theorem adaptation_best_effort:
  assumes "get_build_result X g w = (Inr r, w1)"
      and "distinct (map fst (br_nodes r))"
  shows "\<exists>nodes. get_adapted_nodes X g w = (Inr nodes, w1) \<and>
           map fst nodes = map fst (br_nodes r) \<and>
           (\<forall>n protos. (n, protos) \<in> set (br_nodes r) \<longrightarrow>
              adapt_best_effort X n protos
                (max_opset_policy (br_opset_req r |\<union>| extra_opset_req g w1))
                (scope_var (br_scope r)) (scope_node (br_scope r)) = None \<longrightarrow>
              map_of nodes n = Some protos)"
proof -
  let ?F = "adapted X (max_opset_policy (br_opset_req r |\<union>| extra_opset_req g w1)) (br_scope r)"
  let ?nodes = "fold (\<lambda>(n, protos) cn. dict_set cn n (?F n protos)) (br_nodes r) (br_nodes r)"
  have c: "cached w1 (g_build_result g) = Some r"
    by (rule get_build_result_fills [OF assms(1)])
  have 1: "get_adapted_nodes X g w = (Inr ?nodes, w1)"
    by (simp add: get_adapted_nodes_def st_bind_def assms(1) adapt_loop_cached [OF c])
  have 2: "map fst ?nodes = map fst (br_nodes r)"
    by (rule fold_dict_set_keys) simp
  have 3: "\<forall>n protos. (n, protos) \<in> set (br_nodes r) \<longrightarrow>
              adapt_best_effort X n protos
                (max_opset_policy (br_opset_req r |\<union>| extra_opset_req g w1))
                (scope_var (br_scope r)) (scope_node (br_scope r)) = None \<longrightarrow>
              map_of ?nodes n = Some protos"
  proof (intro allI impI)
    fix n protos
    assume m: "(n, protos) \<in> set (br_nodes r)"
      and a: "adapt_best_effort X n protos
                (max_opset_policy (br_opset_req r |\<union>| extra_opset_req g w1))
                (scope_var (br_scope r)) (scope_node (br_scope r)) = None"
    from a have "?F n protos = protos" by (simp add: adapted_def)
    with fold_dict_set_item [OF assms(2) m, of ?F "br_nodes r"]
    show "map_of ?nodes n = Some protos" by simp
  qed
  from 1 2 3 show ?thesis by blast
qed

lemma ex_nodes_distinct: "distinct (map fst (br_nodes ex_build_result))"
  by (simp add: ex_build_result_def ex_argument_def)

theorem adaptation_best_effort_witness:
  "get_build_result ex_ext ex_graph ex_world = (Inr ex_build_result, ex_world_built) \<and>
   distinct (map fst (br_nodes ex_build_result)) \<and>
   (\<exists>nodes. get_adapted_nodes ex_ext ex_graph ex_world = (Inr nodes, ex_world_built) \<and>
      map fst nodes = [ex_argument, Introduce [0] [1]] \<and>
      map_of nodes (Introduce [0] [1]) = Some [ex_identity])"
proof -
  from adaptation_best_effort [OF ex_build ex_nodes_distinct] obtain nodes where
    a: "get_adapted_nodes ex_ext ex_graph ex_world = (Inr nodes, ex_world_built)" and
    b: "map fst nodes = map fst (br_nodes ex_build_result)" and
    c: "\<forall>n protos. (n, protos) \<in> set (br_nodes ex_build_result) \<longrightarrow>
          adapt_best_effort ex_ext n protos
            (max_opset_policy (br_opset_req ex_build_result |\<union>| extra_opset_req ex_graph ex_world_built))
            (scope_var (br_scope ex_build_result)) (scope_node (br_scope ex_build_result)) = None \<longrightarrow>
          map_of nodes n = Some protos"
    by blast
  have m: "(Introduce [0] [1], [ex_identity]) \<in> set (br_nodes ex_build_result)"
    by (simp add: ex_build_result_def)
  have n: "adapt_best_effort ex_ext (Introduce [0] [1]) [ex_identity]
            (max_opset_policy (br_opset_req ex_build_result |\<union>| extra_opset_req ex_graph ex_world_built))
            (scope_var (br_scope ex_build_result)) (scope_node (br_scope ex_build_result)) = None"
    by (simp add: ex_ext_def)
  from c m n have "map_of nodes (Introduce [0] [1]) = Some [ex_identity]" by blast
  moreover from b have "map fst nodes = [ex_argument, Introduce [0] [1]]"
    by (simp add: ex_build_result_def)
  ultimately show ?thesis using a ex_build ex_nodes_distinct by simp
qed

subsection \<open>Metadata of a function node\<close>

lemma Function_opset_req_Inr:
  assumes "Function_opset_req X f w = (Inr req, w1)"
  shows "\<exists>r. get_build_result X (func_graph f) w = (Inr r, w1) \<and>
           req = f_node_opset_req f |\<union>| br_opset_req r"
  using assms
  by (auto simp: Function_opset_req_def st_bind_def st_return_def split: prod.splits sum.splits)

lemma Function_update_metadata_Inr:
  assumes "update_metadata X (Function f ins outs) md w = (Inr md', w')"
  shows "\<exists>r w1. get_build_result X (func_graph f) w = (Inr r, w1) \<and>
           get_build_result X (func_graph f) w1 = (Inr r, w') \<and>
           md' = md\<lparr>md_opset_req := md_opset_req md |\<union>| (f_node_opset_req f |\<union>| br_opset_req r),
                    md_functions := md_functions md @ [f] @ br_functions r\<rparr>"
proof -
  from assms have "st_bind (Node_update_metadata X (Function f ins outs) md)
      (\<lambda>md1. st_bind (get_build_result X (func_graph f))
          (\<lambda>r. st_return (md1\<lparr>md_functions := (md_functions md1 @ [f]) @ br_functions r\<rparr>))) w
        = (Inr md', w')"
    by (simp add: Let_def)
  from st_bind_Inr [OF this] obtain md1 w1 where
    a: "Node_update_metadata X (Function f ins outs) md w = (Inr md1, w1)" and
    b: "st_bind (get_build_result X (func_graph f))
          (\<lambda>r. st_return (md1\<lparr>md_functions := (md_functions md1 @ [f]) @ br_functions r\<rparr>)) w1
        = (Inr md', w')"
    by blast
  from a obtain req where
    c: "Function_opset_req X f w = (Inr req, w1)" and
    d: "md1 = md\<lparr>md_opset_req := md_opset_req md |\<union>| req\<rparr>"
    by (auto simp: Node_update_metadata_def st_return_def dest!: st_bind_Inr)
  from Function_opset_req_Inr [OF c] obtain r where
    e: "get_build_result X (func_graph f) w = (Inr r, w1)" and
    f: "req = f_node_opset_req f |\<union>| br_opset_req r"
    by blast
  have g: "get_build_result X (func_graph f) w1 = (Inr r, w1)"
    by (rule get_build_result_cached [OF get_build_result_fills [OF e]])
  from b have "w' = w1" and "md' = md1\<lparr>md_functions := (md_functions md1 @ [f]) @ br_functions r\<rparr>"
    by (simp_all add: st_bind_def g st_return_def)
  with d e f g show ?thesis by simp
qed

subsection \<open>C8: functions compose recursively\<close>

text \<open>
  C8. When \<open>Function.opset_req\<close> returns, the build result \<open>r\<close> of the function's
  internal graph is in its cell and every requirement of \<open>r\<close> is among the returned
  ones. When \<open>Function.update_metadata\<close> returns, the function list of the enclosing
  build is the old list, then the function itself, then the functions of \<open>r\<close>; the
  requirements of \<open>r\<close> are among the accumulated ones; the initializers are as before.
\<close>

theorem function_composes:
  "(Function_opset_req X f w = (Inr req, w1) \<longrightarrow>
      (\<exists>r. cached w1 (g_build_result (func_graph f)) = Some r \<and> br_opset_req r |\<subseteq>| req)) \<and>
   (update_metadata X (Function f ins outs) md w = (Inr md', w') \<longrightarrow>
      (\<exists>r. cached w' (g_build_result (func_graph f)) = Some r \<and>
           md_functions md' = md_functions md @ [f] @ br_functions r \<and>
           br_opset_req r |\<subseteq>| md_opset_req md' \<and>
           md_initializers md' = md_initializers md))"
proof (intro conjI impI)
  assume "Function_opset_req X f w = (Inr req, w1)"
  from Function_opset_req_Inr [OF this] obtain r where
    a: "get_build_result X (func_graph f) w = (Inr r, w1)" and
    b: "req = f_node_opset_req f |\<union>| br_opset_req r" by blast
  from get_build_result_fills [OF a] b
  show "\<exists>r. cached w1 (g_build_result (func_graph f)) = Some r \<and> br_opset_req r |\<subseteq>| req"
    by auto
next
  assume "update_metadata X (Function f ins outs) md w = (Inr md', w')"
  from Function_update_metadata_Inr [OF this] obtain r w1 where
    a: "get_build_result X (func_graph f) w1 = (Inr r, w')" and
    b: "md' = md\<lparr>md_opset_req := md_opset_req md |\<union>| (f_node_opset_req f |\<union>| br_opset_req r),
                  md_functions := md_functions md @ [f] @ br_functions r\<rparr>"
    by blast
  from get_build_result_fills [OF a] b
  show "\<exists>r. cached w' (g_build_result (func_graph f)) = Some r \<and>
           md_functions md' = md_functions md @ [f] @ br_functions r \<and>
           br_opset_req r |\<subseteq>| md_opset_req md' \<and>
           md_initializers md' = md_initializers md"
    by auto
qed

lemma ex_func_opset_req:
  "Function_opset_req ex_ext ex_func ex_world =
     (Inr {|(''steelix.function'', 0), ('''', 1)|}, ex_world_built)"
proof -
  have "func_graph ex_func = ex_graph" by (simp add: ex_func_def)
  then show ?thesis
    by (simp add: Function_opset_req_def st_bind_def st_return_def ex_build
          ex_func_def [THEN arg_cong, of f_node_opset_req]
          ex_build_result_def [THEN arg_cong, of br_opset_req])
qed

lemma ex_func_update_metadata:
  "update_metadata ex_ext (Function ex_func [0] [1]) ex_metadata ex_world =
     (Inr \<lparr>md_opset_req = {|('''', 13), (''steelix.function'', 0), ('''', 1)|},
           md_initializers = [], md_functions = [ex_func]\<rparr>, ex_world_built)"
proof -
  have g: "func_graph ex_func = ex_graph" by (simp add: ex_func_def)
  show ?thesis
    by (simp add: Node_update_metadata_def st_bind_def st_return_def ex_func_opset_req g
          ex_rebuild ex_metadata_def ex_build_result_def [THEN arg_cong, of br_functions])
qed

theorem function_composes_witness:
  "Function_opset_req ex_ext ex_func ex_world =
     (Inr {|(''steelix.function'', 0), ('''', 1)|}, ex_world_built) \<and>
   update_metadata ex_ext (Function ex_func [0] [1]) ex_metadata ex_world =
     (Inr \<lparr>md_opset_req = {|('''', 13), (''steelix.function'', 0), ('''', 1)|},
           md_initializers = [], md_functions = [ex_func]\<rparr>, ex_world_built) \<and>
   (\<exists>r. cached ex_world_built (g_build_result (func_graph ex_func)) = Some r \<and>
        br_opset_req r |\<subseteq>| {|(''steelix.function'', 0), ('''', 1)|} \<and>
        [ex_func] = md_functions ex_metadata @ [ex_func] @ br_functions r)"
proof -
  note t = function_composes [of ex_ext ex_func ex_world "{|(''steelix.function'', 0), ('''', 1)|}"
             ex_world_built "[0]" "[1]" ex_metadata
             "\<lparr>md_opset_req = {|('''', 13), (''steelix.function'', 0), ('''', 1)|},
               md_initializers = [], md_functions = [ex_func]\<rparr>" ex_world_built]
  from t ex_func_opset_req obtain r where
    a: "cached ex_world_built (g_build_result (func_graph ex_func)) = Some r" and
    b: "br_opset_req r |\<subseteq>| {|(''steelix.function'', 0), ('''', 1)|}" by blast
  from t ex_func_update_metadata obtain r' where
    c: "cached ex_world_built (g_build_result (func_graph ex_func)) = Some r'" and
    d: "[ex_func] = md_functions ex_metadata @ [ex_func] @ br_functions r'" by auto
  from a c have "r' = r" by simp
  with a b d ex_func_opset_req ex_func_update_metadata show ?thesis by blast
qed

subsection \<open>Accumulated requirements only grow\<close>

lemma opset_req_Introduce: "opset_req X (Introduce ins outs) w = (Inr {|('''', 1)|}, w)"
  by (simp add: st_return_def Introduce_opset_req_def)

lemma Node_update_metadata_Inr:
  assumes "Node_update_metadata X n md w = (Inr md', w')"
  shows "\<exists>req. opset_req X n w = (Inr req, w') \<and>
           md' = md\<lparr>md_opset_req := md_opset_req md |\<union>| req\<rparr>"
  using assms
  by (auto simp: Node_update_metadata_def st_return_def dest!: st_bind_Inr)

lemma update_metadata_base:
  assumes "update_metadata X n md w = (Inr md', w')"
  shows "\<exists>md1 w1. Node_update_metadata X n md w = (Inr md1, w1) \<and>
           md_opset_req md' = md_opset_req md1"
proof (cases n)
  case (Argument attrs out)
  with assms show ?thesis
    by (auto simp: st_return_def dest!: st_bind_Inr split: option.splits)
next
  case (Initializer t d out)
  with assms show ?thesis
    by (auto simp: st_return_def dest!: st_bind_Inr)
next
  case (Constant v ver out)
  with assms show ?thesis by simp
next
  case (Introduce ins outs)
  with assms show ?thesis by simp
next
  case (Function f ins outs)
  from assms have "st_bind (Node_update_metadata X (Function f ins outs) md)
      (\<lambda>md1. st_bind (get_build_result X (func_graph f))
          (\<lambda>r. st_return (md1\<lparr>md_functions := (md_functions md1 @ [f]) @ br_functions r\<rparr>))) w
        = (Inr md', w')"
    by (simp add: Function Let_def)
  from st_bind_Inr [OF this] obtain md1 w1 where
    a: "Node_update_metadata X (Function f ins outs) md w = (Inr md1, w1)" and
    b: "st_bind (get_build_result X (func_graph f))
          (\<lambda>r. st_return (md1\<lparr>md_functions := (md_functions md1 @ [f]) @ br_functions r\<rparr>)) w1
        = (Inr md', w')"
    by blast
  from st_bind_Inr [OF b] have "md_opset_req md' = md_opset_req md1"
    by (auto simp: st_return_def)
  with a show ?thesis by (auto simp: Function)
next
  case (OtherNode req ins outs)
  with assms show ?thesis by simp
qed

lemma update_metadata_grows:
  assumes "update_metadata X n md w = (Inr md', w')"
  shows "\<exists>req. fst (opset_req X n w) = Inr req \<and> md_opset_req md' = md_opset_req md |\<union>| req"
proof -
  from update_metadata_base [OF assms] obtain md1 w1 where
    a: "Node_update_metadata X n md w = (Inr md1, w1)" and
    b: "md_opset_req md' = md_opset_req md1" by blast
  from Node_update_metadata_Inr [OF a] b show ?thesis by auto
qed

lemma collect_metadata_grows:
  "collect_metadata X ns md w = (Inr md', w') \<Longrightarrow> md_opset_req md |\<subseteq>| md_opset_req md'"
proof (induction ns arbitrary: md w)
  case Nil
  then show ?case by (simp add: st_return_def)
next
  case (Cons n ns)
  from Cons.prems have "st_bind (update_metadata X n md) (\<lambda>md1. collect_metadata X ns md1) w
      = (Inr md', w')" by simp
  from st_bind_Inr [OF this] obtain md1 w1 where
    a: "update_metadata X n md w = (Inr md1, w1)" and
    b: "collect_metadata X ns md1 w1 = (Inr md', w')" by blast
  from update_metadata_grows [OF a] obtain req where
    "md_opset_req md1 = md_opset_req md |\<union>| req" by blast
  then have "md_opset_req md |\<subseteq>| md_opset_req md1" by simp
  from this Cons.IH [OF b] show ?case by (rule fsubset_trans)
qed

lemma collect_metadata_Introduce:
  "collect_metadata X ns md w = (Inr md', w') \<Longrightarrow> Introduce ins outs \<in> set ns \<Longrightarrow>
   ('''', 1) |\<in>| md_opset_req md'"
proof (induction ns arbitrary: md w)
  case Nil
  then show ?case by simp
next
  case (Cons n ns)
  from Cons.prems(1) have "st_bind (update_metadata X n md) (\<lambda>md1. collect_metadata X ns md1) w
      = (Inr md', w')" by simp
  from st_bind_Inr [OF this] obtain md1 w1 where
    a: "update_metadata X n md w = (Inr md1, w1)" and
    b: "collect_metadata X ns md1 w1 = (Inr md', w')" by blast
  show ?case
  proof (cases "n = Introduce ins outs")
    case True
    from a have a': "update_metadata X (Introduce ins outs) md w = (Inr md1, w1)"
      by (simp only: True)
    from update_metadata_grows [OF a'] obtain req where
      r: "fst (opset_req X (Introduce ins outs) w) = Inr req" and
      u: "md_opset_req md1 = md_opset_req md |\<union>| req" by blast
    from r have "req = {|('''', 1)|}" by (simp add: st_return_def Introduce_opset_req_def)
    with u have "('''', 1) |\<in>| md_opset_req md1" by simp
    with collect_metadata_grows [OF b] show ?thesis by (rule fsubsetD)
  next
    case False
    with Cons.prems(2) have "Introduce ins outs \<in> set ns" by simp
    from Cons.IH [OF b this] show ?thesis .
  qed
qed

lemma max_opset_policy_floor:
  assumes "(d, v0) |\<in>| req"
  shows "\<exists>v. (d, v) \<in> set (max_opset_policy req) \<and> v0 \<le> v"
proof -
  let ?V = "snd |`| ffilter (\<lambda>p. fst p = d) req"
  from assms have m: "v0 |\<in>| ?V" by (simp only: versions_mem)
  then have ne: "?V \<noteq> {||}" by blast
  from fMax_in [OF ne] have 1: "(d, fMax ?V) |\<in>| req" by (simp only: versions_mem)
  have 2: "\<forall>v'. (d, v') |\<in>| req \<longrightarrow> v' \<le> fMax ?V"
  proof (intro allI impI)
    fix v' assume "(d, v') |\<in>| req"
    then have "v' |\<in>| ?V" by (simp only: versions_mem)
    then show "v' \<le> fMax ?V" by (rule fMax_ge)
  qed
  from 1 2 have "(d, fMax ?V) \<in> set (max_opset_policy req)"
    by (simp only: max_opset_policy_mem)
  moreover from m have "v0 \<le> fMax ?V" by (rule fMax_ge)
  ultimately show ?thesis by blast
qed

lemma intros_Inr:
  "intros args w = (Inr outs, w') \<Longrightarrow>
   outs = [next_var w ..< next_var w + length args] \<and>
   (\<forall>y \<in> set outs. var_op (vars w' y) = Some (Introduce args outs))"
  by (auto simp: intros_def construct_Introduce_def Let_def st_return_def st_bind_def)

subsection \<open>C10: an Introduce node requires the default domain at version 1\<close>

text \<open>
  C10. The \<open>opset_req\<close> of \<open>_InternalNode\<close>, which \<open>Argument\<close> and \<open>_Initializer\<close>
  inherit, is empty; the one of every \<open>_Introduce\<close> node is exactly \<open>{("", 1)}\<close>.
  The outputs of \<open>intros\<close> (hence of \<open>intro\<close>, \<open>unsafe_cast\<close>, \<open>unsafe_reshape\<close>) are
  produced by such a node. Consequently, when the metadata of a list of nodes that
  contains an \<open>_Introduce\<close> node has been collected, \<open>("", 1)\<close> is among the accumulated
  requirements, and the maximum-requested policy, whatever extra requirements the graph
  adds, gives the default domain a version of at least 1.
\<close>

theorem introduce_opset_req:
  "InternalNode_opset_req = {||} \<and>
   opset_req X (Argument attrs out) w = (Inr {||}, w) \<and>
   opset_req X (Initializer t d out) w = (Inr {||}, w) \<and>
   Introduce_opset_req = {|('''', 1)|} \<and>
   opset_req X (Introduce ins outs) w = (Inr {|('''', 1)|}, w) \<and>
   (intros args w = (Inr ys, w1) \<longrightarrow>
      (\<forall>y \<in> set ys. var_op (vars w1 y) = Some (Introduce args ys))) \<and>
   (collect_metadata X ns md w = (Inr md', w') \<longrightarrow> Introduce ins outs \<in> set ns \<longrightarrow>
      ('''', 1) |\<in>| md_opset_req md' \<and>
      (\<exists>v. ('''', v) \<in> set (max_opset_policy (md_opset_req md' |\<union>| extra)) \<and> 1 \<le> v))"
proof -
  have a: "InternalNode_opset_req = {||}" by (simp add: InternalNode_opset_req_def)
  have b: "opset_req X (Argument attrs out) w = (Inr {||}, w)"
    by (simp add: st_return_def InternalNode_opset_req_def)
  have c: "opset_req X (Initializer t d out) w = (Inr {||}, w)"
    by (simp add: st_return_def InternalNode_opset_req_def)
  have d: "Introduce_opset_req = {|('''', 1)|}" by (simp add: Introduce_opset_req_def)
  have e: "opset_req X (Introduce ins outs) w = (Inr {|('''', 1)|}, w)"
    by (rule opset_req_Introduce)
  have f: "intros args w = (Inr ys, w1) \<longrightarrow>
      (\<forall>y \<in> set ys. var_op (vars w1 y) = Some (Introduce args ys))"
    using intros_Inr [of args w ys w1] by blast
  have g: "collect_metadata X ns md w = (Inr md', w') \<longrightarrow> Introduce ins outs \<in> set ns \<longrightarrow>
      ('''', 1) |\<in>| md_opset_req md' \<and>
      (\<exists>v. ('''', v) \<in> set (max_opset_policy (md_opset_req md' |\<union>| extra)) \<and> 1 \<le> v)"
  proof (intro impI)
    assume "collect_metadata X ns md w = (Inr md', w')" and "Introduce ins outs \<in> set ns"
    then have m: "('''', 1) |\<in>| md_opset_req md'" by (rule collect_metadata_Introduce)
    then have "('''', 1) |\<in>| md_opset_req md' |\<union>| extra" by simp
    from max_opset_policy_floor [OF this] m
    show "('''', 1) |\<in>| md_opset_req md' \<and>
      (\<exists>v. ('''', v) \<in> set (max_opset_policy (md_opset_req md' |\<union>| extra)) \<and> 1 \<le> v)"
      by blast
  qed
  show ?thesis by (intro conjI a b c d e f g)
qed

lemma ex_collect_metadata:
  "collect_metadata ex_ext [ex_argument, Introduce [0] [1]] ex_metadata ex_world =
     (Inr (ex_metadata\<lparr>md_opset_req := {|('''', 13), ('''', 1)|}\<rparr>), ex_world)"
  by (simp add: ex_argument_def Node_update_metadata_def st_bind_def st_return_def
        InternalNode_opset_req_def Introduce_opset_req_def ex_metadata_def)

lemma ex_intros:
  "intros [0] ex_world = (Inr [2], snd (intros [0] ex_world))"
  by (simp add: intros_def construct_Introduce_def Let_def st_bind_def st_return_def ex_world_def)

theorem introduce_opset_req_witness:
  "collect_metadata ex_ext [ex_argument, Introduce [0] [1]] ex_metadata ex_world =
     (Inr (ex_metadata\<lparr>md_opset_req := {|('''', 13), ('''', 1)|}\<rparr>), ex_world) \<and>
   Introduce [0] [1] \<in> set [ex_argument, Introduce [0] [1]] \<and>
   (\<exists>v. ('''', v) \<in> set (max_opset_policy ({|('''', 13), ('''', 1)|} |\<union>| {|(''ai.onnx.ml'', 3)|}))
        \<and> 1 \<le> v) \<and>
   intros [0] ex_world = (Inr [2], snd (intros [0] ex_world)) \<and>
   var_op (vars (snd (intros [0] ex_world)) 2) = Some (Introduce [0] [2])"
proof -
  note t = introduce_opset_req [where X = ex_ext and w = ex_world
             and ns = "[ex_argument, Introduce [0] [1]]" and md = ex_metadata
             and md' = "ex_metadata\<lparr>md_opset_req := {|('''', 13), ('''', 1)|}\<rparr>"
             and w' = ex_world and ins = "[0]" and outs = "[1]"
             and extra = "{|(''ai.onnx.ml'', 3)|}"
             and args = "[0]" and ys = "[2]" and ?w1.0 = "snd (intros [0] ex_world)"]
  have m: "Introduce [0] [1] \<in> set [ex_argument, Introduce [0] [1]]" by simp
  from t ex_collect_metadata m have
    "\<exists>v. ('''', v) \<in> set (max_opset_policy
            (md_opset_req (ex_metadata\<lparr>md_opset_req := {|('''', 13), ('''', 1)|}\<rparr>)
               |\<union>| {|(''ai.onnx.ml'', 3)|})) \<and> 1 \<le> v"
    by blast
  then have a: "\<exists>v. ('''', v) \<in> set (max_opset_policy
                  ({|('''', 13), ('''', 1)|} |\<union>| {|(''ai.onnx.ml'', 3)|})) \<and> 1 \<le> v"
    by simp
  from t ex_intros have "\<forall>y \<in> set [2::nat]. var_op (vars (snd (intros [0] ex_world)) y)
      = Some (Introduce [0] [2])"
    by blast
  then have b: "var_op (vars (snd (intros [0] ex_world)) 2) = Some (Introduce [0] [2])"
    by simp
  from ex_collect_metadata m a ex_intros b show ?thesis by (intro conjI)
qed

subsection \<open>Merging function definitions\<close>

lemma to_onnx_function_cached:
  assumes "cached w (g_build_result (func_graph f)) = Some r"
  shows "to_onnx_function X f w = (Inr (cached_function_proto f w), w)"
  by (simp add: to_onnx_function_def cached_function_proto_def assms st_bind_def st_return_def
        get_build_result_cached [OF assms] get_opsets_def get_opset_req_def)

lemma collect_function_protos_cached:
  assumes "\<forall>f \<in> set fs. cached w (g_build_result (func_graph f)) \<noteq> None"
  shows "collect_function_protos X fs d w =
           (merge_protos (map (\<lambda>f. cached_function_proto f w) fs) d, w)"
  using assms
proof (induction fs arbitrary: d)
  case Nil
  show ?case by (simp add: st_return_def)
next
  case (Cons f fs)
  from Cons.prems obtain r where c: "cached w (g_build_result (func_graph f)) = Some r" by auto
  then obtain p where p: "cached_function_proto f w = Some p"
    by (simp add: cached_function_proto_def)
  from Cons.prems have "\<forall>f \<in> set fs. cached w (g_build_result (func_graph f)) \<noteq> None" by simp
  note ih = Cons.IH [OF this]
  show ?case
    by (simp add: st_bind_def to_onnx_function_cached [OF c] p ih Let_def fp_key_def st_raise_def)
qed

lemma merge_protos_error: "merge_protos ps d = Inl e \<Longrightarrow> e = RuntimeError"
  by (induction ps d rule: merge_protos.induct) (auto split: if_splits)

lemma set_dict_set: "set (dict_set d k v) \<subseteq> insert (k, v) (set d)"
  by (induction d) (auto split: if_splits)

lemma keyed_dict_set:
  assumes "keyed d"
  shows "keyed (dict_set d (fp_key p) p)"
  unfolding keyed_def
proof
  fix x assume "x \<in> set (dict_set d (fp_key p) p)"
  with set_dict_set [of d "fp_key p" p] have "x = (fp_key p, p) \<or> x \<in> set d" by blast
  with assms show "case x of (k, q) \<Rightarrow> k = fp_key q" by (auto simp: keyed_def)
qed

lemma distinct_dict_set: "distinct (map fst d) \<Longrightarrow> distinct (map fst (dict_set d k v))"
  by (simp add: keys_dict_set)

lemma merge_protos_Inr:
  "merge_protos ps d = Inr d' \<Longrightarrow> keyed d \<Longrightarrow> distinct (map fst d) \<Longrightarrow>
   keyed d' \<and> distinct (map fst d') \<and>
   (\<forall>k p. map_of d k = Some p \<longrightarrow> map_of d' k = Some p) \<and>
   (\<forall>p. Some p \<in> set ps \<longrightarrow> map_of d' (fp_key p) = Some p) \<and>
   (\<forall>k p. map_of d' k = Some p \<longrightarrow> map_of d k = Some p \<or> Some p \<in> set ps)"
proof (induction ps d rule: merge_protos.induct)
  case (1 d)
  then show ?case by simp
next
  case (2 ps d)
  then show ?case by (simp del: map_of_eq_Some_iff)
next
  case (3 p ps d)
  let ?d1 = "dict_set d (fp_key p) p"
  from "3.prems"(1) have ok: "\<not> (map_of d (fp_key p) \<noteq> None \<and> Some p \<noteq> map_of d (fp_key p))"
    and m: "merge_protos ps ?d1 = Inr d'"
    by (auto split: if_splits)
  have k1: "keyed ?d1" by (rule keyed_dict_set [OF "3.prems"(2)])
  have d1: "distinct (map fst ?d1)" by (rule distinct_dict_set [OF "3.prems"(3)])
  from "3.IH" [OF ok m k1 d1] have
    a: "keyed d'" and b: "distinct (map fst d')" and
    c: "\<forall>k q. map_of ?d1 k = Some q \<longrightarrow> map_of d' k = Some q" and
    e: "\<forall>q. Some q \<in> set ps \<longrightarrow> map_of d' (fp_key q) = Some q" and
    f: "\<forall>k q. map_of d' k = Some q \<longrightarrow> map_of ?d1 k = Some q \<or> Some q \<in> set ps"
    by blast+
  have g: "\<forall>k q. map_of d k = Some q \<longrightarrow> map_of d' k = Some q"
  proof (intro allI impI)
    fix k q assume h: "map_of d k = Some q"
    have "map_of ?d1 k = Some q"
    proof (cases "k = fp_key p")
      case True
      with ok h have "q = p" by auto
      with True show ?thesis by (simp add: map_of_dict_set)
    next
      case False
      with h show ?thesis by (simp add: map_of_dict_set)
    qed
    with c show "map_of d' k = Some q" by blast
  qed
  have h: "\<forall>q. Some q \<in> set (Some p # ps) \<longrightarrow> map_of d' (fp_key q) = Some q"
  proof (intro allI impI)
    fix q assume "Some q \<in> set (Some p # ps)"
    then consider "q = p" | "Some q \<in> set ps" by auto
    then show "map_of d' (fp_key q) = Some q"
    proof cases
      case 1
      have "map_of ?d1 (fp_key p) = Some p" by (simp add: map_of_dict_set)
      with c 1 show ?thesis by blast
    next
      case 2
      with e show ?thesis by blast
    qed
  qed
  have i: "\<forall>k q. map_of d' k = Some q \<longrightarrow> map_of d k = Some q \<or> Some q \<in> set (Some p # ps)"
  proof (intro allI impI)
    fix k q assume "map_of d' k = Some q"
    with f have "map_of ?d1 k = Some q \<or> Some q \<in> set ps" by blast
    then show "map_of d k = Some q \<or> Some q \<in> set (Some p # ps)"
      by (auto simp: map_of_dict_set split: if_splits)
  qed
  from a b g h i show ?case by blast
qed

lemma merge_protos_conflict:
  assumes "Some p1 \<in> set ps" and "Some p2 \<in> set ps"
      and "fp_key p1 = fp_key p2" and "p1 \<noteq> p2"
  shows "merge_protos ps [] = Inl RuntimeError"
proof (cases "merge_protos ps []")
  case (Inl e)
  then show ?thesis by (simp add: merge_protos_error [OF Inl])
next
  case (Inr d')
  have "keyed []" by (simp add: keyed_def)
  from merge_protos_Inr [OF Inr this] assms(1,2)
  have "map_of d' (fp_key p1) = Some p1" and "map_of d' (fp_key p2) = Some p2" by simp_all
  with assms(3,4) show ?thesis by simp
qed

lemma keyed_keys: "keyed d \<Longrightarrow> map fp_key (map snd d) = map fst d"
  by (induction d) (auto simp: keyed_def)

lemma map_of_values:
  assumes "distinct (map fst d)"
  shows "p \<in> set (map snd d) \<longleftrightarrow> (\<exists>k. map_of d k = Some p)"
proof
  assume "p \<in> set (map snd d)"
  then obtain k where "(k, p) \<in> set d" by auto
  with assms have "map_of d k = Some p" by simp
  then show "\<exists>k. map_of d k = Some p" ..
next
  assume "\<exists>k. map_of d k = Some p"
  then obtain k where "map_of d k = Some p" ..
  then have "(k, p) \<in> set d" by (rule map_of_SomeD)
  then have "snd (k, p) \<in> snd ` set d" by (rule imageI)
  then show "p \<in> set (map snd d)" by simp
qed

lemma st_bind_if_Inr:
  "st_bind m (\<lambda>x. if c x then st_raise e else k x) w = (Inr y, w') \<Longrightarrow>
   \<exists>x w1. m w = (Inr x, w1) \<and> k x w1 = (Inr y, w')"
  by (auto simp: st_bind_def st_raise_def split: prod.splits sum.splits if_splits)

lemma to_onnx_model_functions:
  assumes "to_onnx_model X g pn doc do_infer_shapes lvl conc w = (Inr m, w')"
      and "do_infer_shapes \<longrightarrow> (\<forall>m m'. infer_shapes X m = Inr m' \<longrightarrow> mp_functions m' = mp_functions m)"
  shows "\<exists>r w1 fps w2. get_build_result X g w = (Inr r, w1) \<and>
           collect_function_protos X (br_functions r) [] w1 = (Inr fps, w2) \<and>
           mp_functions m = map snd fps"
proof -
  from st_bind_Inr [OF assms(1) [unfolded to_onnx_model_def]] obtain r w1 where
    a: "get_build_result X g w = (Inr r, w1)" and
    a': "st_bind (collect_function_protos X (br_functions r) []) (\<lambda>function_protos.
     st_bind (get_opsets X g) (\<lambda>opsets0.
       if opsets0 = [] then st_raise RuntimeError
       else
         st_bind (to_onnx X g conc) (\<lambda>gp.
         st_bind (get_opsets X g) (\<lambda>opsets.
           let model =
                 \<lparr>mp_graph = gp,
                  mp_producer_name = pn,
                  mp_doc_string = doc,
                  mp_functions = map snd function_protos,
                  mp_opset_import = opsets\<rparr>
           in
             case (if do_infer_shapes then infer_shapes X model else Inr model) of
               Inl e \<Rightarrow> st_raise e
             | Inr model' \<Rightarrow>
                 if lvl \<noteq> 0
                 then (case check_model X model' (2 \<le> lvl) of
                         Some e \<Rightarrow> st_raise e
                       | None \<Rightarrow> st_return model')
                 else st_return model')))) w1 = (Inr m, w')"
    by blast
  from st_bind_Inr [OF a'] obtain fps w2 where
    b: "collect_function_protos X (br_functions r) [] w1 = (Inr fps, w2)" and
    b': "st_bind (get_opsets X g) (\<lambda>opsets0.
       if opsets0 = [] then st_raise RuntimeError
       else
         st_bind (to_onnx X g conc) (\<lambda>gp.
         st_bind (get_opsets X g) (\<lambda>opsets.
           let model =
                 \<lparr>mp_graph = gp,
                  mp_producer_name = pn,
                  mp_doc_string = doc,
                  mp_functions = map snd fps,
                  mp_opset_import = opsets\<rparr>
           in
             case (if do_infer_shapes then infer_shapes X model else Inr model) of
               Inl e \<Rightarrow> st_raise e
             | Inr model' \<Rightarrow>
                 if lvl \<noteq> 0
                 then (case check_model X model' (2 \<le> lvl) of
                         Some e \<Rightarrow> st_raise e
                       | None \<Rightarrow> st_return model')
                 else st_return model'))) w2 = (Inr m, w')"
    by blast
  from st_bind_if_Inr [OF b'] obtain opsets0 w3 where
    d': "st_bind (to_onnx X g conc) (\<lambda>gp.
         st_bind (get_opsets X g) (\<lambda>opsets.
           let model =
                 \<lparr>mp_graph = gp,
                  mp_producer_name = pn,
                  mp_doc_string = doc,
                  mp_functions = map snd fps,
                  mp_opset_import = opsets\<rparr>
           in
             case (if do_infer_shapes then infer_shapes X model else Inr model) of
               Inl e \<Rightarrow> st_raise e
             | Inr model' \<Rightarrow>
                 if lvl \<noteq> 0
                 then (case check_model X model' (2 \<le> lvl) of
                         Some e \<Rightarrow> st_raise e
                       | None \<Rightarrow> st_return model')
                 else st_return model')) w3 = (Inr m, w')"
    by blast
  from st_bind_Inr [OF d'] obtain gp w4 where
    e': "st_bind (get_opsets X g) (\<lambda>opsets.
           let model =
                 \<lparr>mp_graph = gp,
                  mp_producer_name = pn,
                  mp_doc_string = doc,
                  mp_functions = map snd fps,
                  mp_opset_import = opsets\<rparr>
           in
             case (if do_infer_shapes then infer_shapes X model else Inr model) of
               Inl e \<Rightarrow> st_raise e
             | Inr model' \<Rightarrow>
                 if lvl \<noteq> 0
                 then (case check_model X model' (2 \<le> lvl) of
                         Some e \<Rightarrow> st_raise e
                       | None \<Rightarrow> st_return model')
                 else st_return model') w4 = (Inr m, w')"
    by blast
  from st_bind_Inr [OF e'] obtain opsets w5 where
    f': "(let model =
                 \<lparr>mp_graph = gp,
                  mp_producer_name = pn,
                  mp_doc_string = doc,
                  mp_functions = map snd fps,
                  mp_opset_import = opsets\<rparr>
           in
             case (if do_infer_shapes then infer_shapes X model else Inr model) of
               Inl e \<Rightarrow> st_raise e
             | Inr model' \<Rightarrow>
                 if lvl \<noteq> 0
                 then (case check_model X model' (2 \<le> lvl) of
                         Some e \<Rightarrow> st_raise e
                       | None \<Rightarrow> st_return model')
                 else st_return model') w5 = (Inr m, w')"
    by blast
  let ?model = "\<lparr>mp_graph = gp, mp_producer_name = pn, mp_doc_string = doc,
                  mp_functions = map snd fps, mp_opset_import = opsets\<rparr>"
  from f' have "(if do_infer_shapes then infer_shapes X ?model else Inr ?model) = Inr m"
    by (auto simp: Let_def st_raise_def st_return_def split: sum.splits if_splits option.splits)
  with assms(2) have "mp_functions m = map snd fps"
    by (auto split: if_splits)
  with a b show ?thesis by blast
qed

subsection \<open>C2: function definitions with one identifier\<close>

text \<open>
  C2. The graph is built (its build result \<open>r\<close> is in its cell) and so are the internal
  graphs of the functions of \<open>r\<close>, as they are after the build of the graph; then
  \<open>to_onnx_function\<close> is a reading of the world. If two functions of \<open>r\<close> serialize
  to definitions with the same (domain, name) that differ, \<open>to_onnx_model\<close> raises the
  \<open>RuntimeError\<close> of its first loop. If \<open>to_onnx_model\<close> returns a model, the (domain,
  name) pairs of its function definitions are distinct, the definition of every function
  of \<open>r\<close> is among them, and they hold nothing else: so functions with one identifier
  and equal definitions are in the model once. The third hypothesis is about the
  \<open>onnx\<close> package: its shape inference, when asked for, leaves the function definitions
  of a model as they are.
\<close>

theorem function_definitions_merged:
  assumes "cached w (g_build_result g) = Some r"
      and "\<forall>f \<in> set (br_functions r). cached w (g_build_result (func_graph f)) \<noteq> None"
      and "do_infer_shapes \<longrightarrow> (\<forall>m m'. infer_shapes X m = Inr m' \<longrightarrow> mp_functions m' = mp_functions m)"
  shows
    "(\<forall>f1 f2 p1 p2.
        f1 \<in> set (br_functions r) \<and> f2 \<in> set (br_functions r) \<and>
        to_onnx_function X f1 w = (Inr (Some p1), w) \<and>
        to_onnx_function X f2 w = (Inr (Some p2), w) \<and>
        fp_domain p1 = fp_domain p2 \<and> fp_name p1 = fp_name p2 \<and> p1 \<noteq> p2 \<longrightarrow>
        to_onnx_model X g pn doc do_infer_shapes lvl conc w = (Inl RuntimeError, w)) \<and>
     (\<forall>m w'. to_onnx_model X g pn doc do_infer_shapes lvl conc w = (Inr m, w') \<longrightarrow>
        distinct (map (\<lambda>p. (fp_domain p, fp_name p)) (mp_functions m)) \<and>
        (\<forall>f p. f \<in> set (br_functions r) \<longrightarrow> to_onnx_function X f w = (Inr (Some p), w) \<longrightarrow>
           p \<in> set (mp_functions m)) \<and>
        (\<forall>p \<in> set (mp_functions m).
           \<exists>f \<in> set (br_functions r). to_onnx_function X f w = (Inr (Some p), w)))"
proof (intro conjI allI impI ballI)
  let ?ps = "map (\<lambda>f. cached_function_proto f w) (br_functions r)"
  have col: "collect_function_protos X (br_functions r) [] w = (merge_protos ?ps [], w)"
    by (rule collect_function_protos_cached [OF assms(2)])
  have ser: "\<And>f. f \<in> set (br_functions r) \<Longrightarrow>
               to_onnx_function X f w = (Inr (cached_function_proto f w), w)"
  proof -
    fix f assume "f \<in> set (br_functions r)"
    with assms(2) obtain rf where "cached w (g_build_result (func_graph f)) = Some rf" by auto
    then show "to_onnx_function X f w = (Inr (cached_function_proto f w), w)"
      by (rule to_onnx_function_cached)
  qed
  {
    fix f1 f2 p1 p2
    assume h: "f1 \<in> set (br_functions r) \<and> f2 \<in> set (br_functions r) \<and>
        to_onnx_function X f1 w = (Inr (Some p1), w) \<and>
        to_onnx_function X f2 w = (Inr (Some p2), w) \<and>
        fp_domain p1 = fp_domain p2 \<and> fp_name p1 = fp_name p2 \<and> p1 \<noteq> p2"
    then have 1: "cached_function_proto f1 w = Some p1" and 2: "cached_function_proto f2 w = Some p2"
      using ser by auto
    from h 1 have m1: "Some p1 \<in> set ?ps" by force
    from h 2 have m2: "Some p2 \<in> set ?ps" by force
    from h have "fp_key p1 = fp_key p2" and "p1 \<noteq> p2" by (simp_all add: fp_key_def)
    with m1 m2 have "merge_protos ?ps [] = Inl RuntimeError" by (rule merge_protos_conflict)
    then show "to_onnx_model X g pn doc do_infer_shapes lvl conc w = (Inl RuntimeError, w)"
      by (simp add: to_onnx_model_def st_bind_def get_build_result_cached [OF assms(1)] col)
  }
  {
    fix m w'
    assume "to_onnx_model X g pn doc do_infer_shapes lvl conc w = (Inr m, w')"
    from to_onnx_model_functions [OF this assms(3)] obtain r0 w1 fps w2 where
      a: "get_build_result X g w = (Inr r0, w1)" and
      b: "collect_function_protos X (br_functions r0) [] w1 = (Inr fps, w2)" and
      c: "mp_functions m = map snd fps" by blast
    from a have r0: "r0 = r" and w1: "w1 = w"
      by (simp_all add: get_build_result_cached [OF assms(1)])
    from b have "collect_function_protos X (br_functions r) [] w = (Inr fps, w2)"
      unfolding r0 w1 .
    then have "(merge_protos ?ps [], w) = (Inr fps, w2)" unfolding col .
    then have "fst (merge_protos ?ps [], w) = fst (Inr fps, w2)" by (rule arg_cong)
    then have mer: "merge_protos ?ps [] = Inr fps" by (simp only: fst_conv)
    have "keyed []" by (simp add: keyed_def)
    from merge_protos_Inr [OF mer this] have
      k: "keyed fps" and d: "distinct (map fst fps)" and
      i: "\<forall>p. Some p \<in> set ?ps \<longrightarrow> map_of fps (fp_key p) = Some p" and
      o: "\<forall>k p. map_of fps k = Some p \<longrightarrow> Some p \<in> set ?ps"
      by simp_all
    have "map (\<lambda>p. (fp_domain p, fp_name p)) (mp_functions m) = map fp_key (map snd fps)"
      by (simp add: c fp_key_def)
    also have "\<dots> = map fst fps" by (rule keyed_keys [OF k])
    finally show "distinct (map (\<lambda>p. (fp_domain p, fp_name p)) (mp_functions m))"
      using d by (simp only:)
    {
      fix f p
      assume "f \<in> set (br_functions r)" and "to_onnx_function X f w = (Inr (Some p), w)"
      with ser have "Some p \<in> set ?ps" by force
      with i have "map_of fps (fp_key p) = Some p" by blast
      then show "p \<in> set (mp_functions m)"
        unfolding c map_of_values [OF d] by blast
    }
    {
      fix p assume "p \<in> set (mp_functions m)"
      then obtain k where "map_of fps k = Some p"
        unfolding c map_of_values [OF d] by blast
      with o have "Some p \<in> set ?ps" by blast
      then obtain f where "f \<in> set (br_functions r)" and "cached_function_proto f w = Some p"
        by auto
      with ser show "\<exists>f \<in> set (br_functions r). to_onnx_function X f w = (Inr (Some p), w)"
        by force
    }
  }
qed

subsection \<open>The graph with two function instances, evaluated\<close>

lemma ex_main_cached:
  "cached ex_world_main (g_build_result ex_main_graph) = Some (ex_main_build_result ex_func_again)"
  "cached ex_world_main (g_build_result ex_clash_graph) = Some (ex_main_build_result ex_func_other)"
  "cached ex_world_main (g_build_result (func_graph ex_func)) = Some ex_build_result"
  "cached ex_world_main (g_build_result (func_graph ex_func_again)) = Some ex_build_result"
  "cached ex_world_main (g_build_result (func_graph ex_func_other)) = Some ex_body_other"
  by (simp_all add: ex_world_main_def ex_main_graph_def ex_clash_graph_def ex_func_def
        ex_func_again_def ex_func_other_def ex_graph_def ex_world_built_def cached_set_def)

lemma ex_main_extra:
  "extra_opset_req ex_main_graph w = {||}"
  "extra_opset_req (func_graph ex_func) w = {||}"
  "extra_opset_req (func_graph ex_func_again) w = {||}"
  "extra_opset_req (func_graph ex_func_other) w = {||}"
  by (simp_all add: extra_opset_req_def ex_main_graph_def ex_func_def ex_func_again_def
        ex_func_other_def ex_graph_def)

lemma ex_cached_function_proto:
  "cached_function_proto ex_func ex_world_main = Some ex_function_proto"
  "cached_function_proto ex_func_again ex_world_main = Some ex_function_proto"
  "cached_function_proto ex_func_other ex_world_main = Some (ex_function_proto\<lparr>fp_node := []\<rparr>)"
  by (simp_all add: cached_function_proto_def ex_main_cached ex_main_extra ex_function_proto_def
        ex_build_result_def ex_body_other_def ex_max_opset_policy)
     (simp_all add: ex_func_def ex_func_again_def ex_func_other_def)

lemma ex_main_policy:
  "max_opset_policy {|('''', 1), (''steelix.function'', 0)|} = [('''', 1), (''steelix.function'', 0)]"
  by code_simp

lemmas ex_main_rebuild = get_build_result_cached [OF ex_main_cached(1)]

lemma ex_main_functions:
  "collect_function_protos ex_ext (br_functions (ex_main_build_result ex_func_again)) [] ex_world_main
     = (Inr [((''steelix.function'', ''Twice''), ex_function_proto)], ex_world_main)"
proof -
  have "\<forall>f \<in> set (br_functions (ex_main_build_result ex_func_again)).
          cached ex_world_main (g_build_result (func_graph f)) \<noteq> None"
    by (simp add: ex_main_build_result_def ex_main_cached)
  then have "collect_function_protos ex_ext (br_functions (ex_main_build_result ex_func_again)) []
               ex_world_main
             = (merge_protos (map (\<lambda>f. cached_function_proto f ex_world_main)
                  (br_functions (ex_main_build_result ex_func_again))) [], ex_world_main)"
    by (rule collect_function_protos_cached)
  moreover have "merge_protos (map (\<lambda>f. cached_function_proto f ex_world_main)
                  (br_functions (ex_main_build_result ex_func_again))) []
                 = Inr [((''steelix.function'', ''Twice''), ex_function_proto)]"
    by (simp add: ex_main_build_result_def ex_cached_function_proto fp_key_def ex_function_proto_def)
  ultimately show ?thesis by (simp only:)
qed

lemma ex_main_get_opsets:
  "get_opsets ex_ext ex_main_graph ex_world_main =
     (Inr [('''', 1), (''steelix.function'', 0)], ex_world_main)"
  by (simp add: get_opsets_def get_opset_req_def st_bind_def st_return_def ex_main_rebuild
        ex_main_extra ex_main_build_result_def ex_main_policy)

lemma ex_main_get_results:
  "get_results ex_ext ex_main_graph ex_world_main = (Inr [(''z'', 2)], ex_world_main)"
  by (simp add: get_results_def st_bind_def st_return_def ex_main_rebuild dict_get_def
        ex_main_build_result_def)

lemma ex_main_get_arguments:
  "get_arguments ex_ext ex_main_graph ex_world_main = (Inr [(''x'', 0)], ex_world_main)"
  by (simp add: get_arguments_def st_bind_def st_return_def ex_main_rebuild dict_get_def
        ex_main_build_result_def)

lemma ex_main_get_initializers:
  "get_initializers_by_name ex_ext ex_main_graph ex_world_main = (Inr [], ex_world_main)"
  by (simp add: get_initializers_by_name_def st_bind_def st_return_def ex_main_rebuild
        ex_main_build_result_def)

lemma ex_main_get_adapted_nodes:
  "get_adapted_nodes ex_ext ex_main_graph ex_world_main =
     (Inr (br_nodes (ex_main_build_result ex_func_again)), ex_world_main)"
  by (simp add: get_adapted_nodes_def st_bind_def st_return_def ex_main_rebuild ex_main_get_opsets
        ex_main_build_result_def [THEN arg_cong, of br_nodes]
        ex_ext_def [THEN arg_cong, of adapt_best_effort] ex_argument_def)

lemma ex_main_value_infos:
  "value_infos ex_ext c [(n, a)] ex_world_main = (Inr [\<lparr>vi_name = n, vi_type = ex_type\<rparr>], ex_world_main)"
  by (simp add: st_bind_def st_return_def unwrap_type_def ex_world_main_def ex_world_built_def
        cached_set_def ex_world_def ex_ext_def)

lemma ex_main_to_onnx:
  "to_onnx ex_ext ex_main_graph True ex_world_main = (Inr ex_main_graph_proto, ex_world_main)"
proof -
  have "g_name ex_main_graph = None" and "g_doc_string ex_main_graph = None"
    by (simp_all add: ex_main_graph_def ex_graph_def)
  then show ?thesis
    by (simp add: to_onnx_def st_bind_def st_return_def ex_main_get_results ex_main_get_arguments
          ex_main_get_initializers ex_main_get_adapted_nodes ex_main_value_infos
          ex_main_graph_proto_def
          ex_main_build_result_def [THEN arg_cong, of br_nodes] del: value_infos.simps)
qed

lemma ex_main_to_onnx_model:
  "to_onnx_model ex_ext ex_main_graph ''steelix'' '''' False 1 True ex_world_main =
     (Inr ex_model, ex_world_main)"
  by (simp add: to_onnx_model_def st_bind_def st_return_def ex_main_rebuild ex_main_functions
        ex_main_get_opsets ex_main_to_onnx ex_model_def
        ex_ext_def [THEN arg_cong, of check_model])

theorem function_definitions_merged_witness:
  "cached ex_world_main (g_build_result ex_main_graph) = Some (ex_main_build_result ex_func_again) \<and>
   to_onnx_model ex_ext ex_main_graph ''steelix'' '''' False 1 True ex_world_main =
     (Inr ex_model, ex_world_main) \<and>
   distinct (map (\<lambda>p. (fp_domain p, fp_name p)) (mp_functions ex_model)) \<and>
   ex_function_proto \<in> set (mp_functions ex_model) \<and>
   cached ex_world_main (g_build_result ex_clash_graph) = Some (ex_main_build_result ex_func_other) \<and>
   to_onnx_model ex_ext ex_clash_graph ''steelix'' '''' False 1 True ex_world_main =
     (Inl RuntimeError, ex_world_main)"
proof -
  have i: "False \<longrightarrow> (\<forall>m m'. infer_shapes ex_ext m = Inr m' \<longrightarrow> mp_functions m' = mp_functions m)"
    by simp
  have h1: "\<forall>f \<in> set (br_functions (ex_main_build_result ex_func_again)).
              cached ex_world_main (g_build_result (func_graph f)) \<noteq> None"
    by (simp add: ex_main_build_result_def ex_main_cached)
  have h2: "\<forall>f \<in> set (br_functions (ex_main_build_result ex_func_other)).
              cached ex_world_main (g_build_result (func_graph f)) \<noteq> None"
    by (simp add: ex_main_build_result_def ex_main_cached)
  note t1 = function_definitions_merged [OF ex_main_cached(1) h1 i,
              of "''steelix''" "''''" 1 True]
  note t2 = function_definitions_merged [OF ex_main_cached(2) h2 i,
              of "''steelix''" "''''" 1 True]
  have s1: "to_onnx_function ex_ext ex_func ex_world_main = (Inr (Some ex_function_proto), ex_world_main)"
    by (simp add: to_onnx_function_cached [OF ex_main_cached(3)] ex_cached_function_proto)
  have s2: "to_onnx_function ex_ext ex_func_other ex_world_main =
              (Inr (Some (ex_function_proto\<lparr>fp_node := []\<rparr>)), ex_world_main)"
    by (simp add: to_onnx_function_cached [OF ex_main_cached(5)] ex_cached_function_proto)
  have m1: "ex_func \<in> set (br_functions (ex_main_build_result ex_func_again))"
    and m2: "ex_func \<in> set (br_functions (ex_main_build_result ex_func_other))"
    and m3: "ex_func_other \<in> set (br_functions (ex_main_build_result ex_func_other))"
    by (simp_all add: ex_main_build_result_def)
  have ne: "ex_function_proto \<noteq> ex_function_proto\<lparr>fp_node := []\<rparr>"
    by (simp add: ex_function_proto_def)
  from t1 ex_main_to_onnx_model have
    d: "distinct (map (\<lambda>p. (fp_domain p, fp_name p)) (mp_functions ex_model))" and
    a: "\<forall>f p. f \<in> set (br_functions (ex_main_build_result ex_func_again)) \<longrightarrow>
          to_onnx_function ex_ext f ex_world_main = (Inr (Some p), ex_world_main) \<longrightarrow>
          p \<in> set (mp_functions ex_model)"
    by blast+
  from a m1 s1 have e: "ex_function_proto \<in> set (mp_functions ex_model)" by blast
  from t2 have "ex_func \<in> set (br_functions (ex_main_build_result ex_func_other)) \<and>
        ex_func_other \<in> set (br_functions (ex_main_build_result ex_func_other)) \<and>
        to_onnx_function ex_ext ex_func ex_world_main = (Inr (Some ex_function_proto), ex_world_main) \<and>
        to_onnx_function ex_ext ex_func_other ex_world_main =
          (Inr (Some (ex_function_proto\<lparr>fp_node := []\<rparr>)), ex_world_main) \<and>
        fp_domain ex_function_proto = fp_domain (ex_function_proto\<lparr>fp_node := []\<rparr>) \<and>
        fp_name ex_function_proto = fp_name (ex_function_proto\<lparr>fp_node := []\<rparr>) \<and>
        ex_function_proto \<noteq> ex_function_proto\<lparr>fp_node := []\<rparr> \<longrightarrow>
      to_onnx_model ex_ext ex_clash_graph ''steelix'' '''' False 1 True ex_world_main =
        (Inl RuntimeError, ex_world_main)"
    by blast
  with m2 m3 s1 s2 ne have
    c: "to_onnx_model ex_ext ex_clash_graph ''steelix'' '''' False 1 True ex_world_main =
          (Inl RuntimeError, ex_world_main)"
    by simp
  from ex_main_cached(1) ex_main_to_onnx_model d e ex_main_cached(2) c show ?thesis
    by (intro conjI)
qed

subsection \<open>Lowering of an Introduce node\<close>

lemma sequence_sum_map_Inr:
  "(\<And>x. x \<in> set xs \<Longrightarrow> f x = Inr (g x)) \<Longrightarrow> sequence_sum (map f xs) = Inr (map g xs)"
  by (induction xs) simp_all

lemma Introduce_proto_named:
  assumes "map_of (scope_var sc) (ins ! i) = Some a"
      and "map_of (scope_var sc) (outs ! i) = Some b"
  shows "Introduce_proto sc doc name ins outs i =
           Inr (make_node ''Identity'' [a] [b]
                  (map_option (\<lambda>nm. nm @ ''_id'' @ show_nat i) name) doc)"
  by (simp add: Introduce_proto_def dict_get_def assms)

subsection \<open>C7: one identity instruction per input\<close>

text \<open>
  C7. An \<open>_Introduce\<close> node has as many inputs as outputs, and the scope of the build
  names each of them. Then \<open>to_onnx\<close> returns a list of as many instructions as there
  are inputs; the \<open>i\<close>-th is an \<open>Identity\<close> whose one input is the name of the \<open>i\<close>-th
  input and whose one output is the name of the \<open>i\<close>-th output.
\<close>

theorem introduce_to_onnx:
  assumes "length ins = length outs"
      and "\<forall>a \<in> set ins \<union> set outs. map_of (scope_var sc) a \<noteq> None"
  shows "\<exists>protos. Introduce_to_onnx self ins outs sc doc = Inr protos \<and>
           length protos = length ins \<and>
           (\<forall>i < length ins. \<exists>a b.
              map_of (scope_var sc) (ins ! i) = Some a \<and>
              map_of (scope_var sc) (outs ! i) = Some b \<and>
              np_op_type (protos ! i) = ''Identity'' \<and>
              np_input (protos ! i) = [a] \<and> np_output (protos ! i) = [b])"
proof -
  let ?name = "map_of (scope_node sc) self"
  let ?g = "\<lambda>i. make_node ''Identity'' [the (map_of (scope_var sc) (ins ! i))]
                   [the (map_of (scope_var sc) (outs ! i))]
                   (map_option (\<lambda>nm. nm @ ''_id'' @ show_nat i) ?name) doc"
  have named: "\<And>i. i < length ins \<Longrightarrow>
      (\<exists>a. map_of (scope_var sc) (ins ! i) = Some a) \<and> (\<exists>b. map_of (scope_var sc) (outs ! i) = Some b)"
  proof -
    fix i assume i: "i < length ins"
    then have "ins ! i \<in> set ins \<union> set outs" by simp
    moreover from i assms(1) have "outs ! i \<in> set ins \<union> set outs" by simp
    ultimately show "(\<exists>a. map_of (scope_var sc) (ins ! i) = Some a) \<and>
                     (\<exists>b. map_of (scope_var sc) (outs ! i) = Some b)"
      using assms(2) by blast
  qed
  have step: "\<And>i. i \<in> set [0 ..< length ins] \<Longrightarrow>
                Introduce_proto sc doc ?name ins outs i = Inr (?g i)"
  proof -
    fix i assume "i \<in> set [0 ..< length ins]"
    then have "i < length ins" by simp
    from named [OF this] obtain a b where
      "map_of (scope_var sc) (ins ! i) = Some a" and "map_of (scope_var sc) (outs ! i) = Some b"
      by blast
    then show "Introduce_proto sc doc ?name ins outs i = Inr (?g i)"
      by (simp add: Introduce_proto_named)
  qed
  have "sequence_sum (map (Introduce_proto sc doc ?name ins outs) [0 ..< length ins])
          = Inr (map ?g [0 ..< length ins])"
    by (rule sequence_sum_map_Inr) (rule step)
  with assms(1) have r: "Introduce_to_onnx self ins outs sc doc = Inr (map ?g [0 ..< length ins])"
    unfolding Introduce_to_onnx_def Let_def by simp
  have p: "\<forall>i < length ins. \<exists>a b.
              map_of (scope_var sc) (ins ! i) = Some a \<and>
              map_of (scope_var sc) (outs ! i) = Some b \<and>
              np_op_type (map ?g [0 ..< length ins] ! i) = ''Identity'' \<and>
              np_input (map ?g [0 ..< length ins] ! i) = [a] \<and>
              np_output (map ?g [0 ..< length ins] ! i) = [b]"
  proof (intro allI impI)
    fix i assume i: "i < length ins"
    from named [OF i] obtain a b where
      "map_of (scope_var sc) (ins ! i) = Some a" and "map_of (scope_var sc) (outs ! i) = Some b"
      by blast
    with i show "\<exists>a b.
              map_of (scope_var sc) (ins ! i) = Some a \<and>
              map_of (scope_var sc) (outs ! i) = Some b \<and>
              np_op_type (map ?g [0 ..< length ins] ! i) = ''Identity'' \<and>
              np_input (map ?g [0 ..< length ins] ! i) = [a] \<and>
              np_output (map ?g [0 ..< length ins] ! i) = [b]"
      by (simp add: make_node_def)
  qed
  have l: "length (map ?g [0 ..< length ins]) = length ins" by simp
  from r l p show ?thesis by blast
qed

lemma ex_show_nat: "show_nat 0 = ''0''"
  by code_simp

lemma ex_introduce_to_onnx:
  "Introduce_to_onnx (Introduce [0] [1]) [0] [1] (br_scope ex_build_result) None = Inr [ex_identity]"
  by (simp add: Introduce_to_onnx_def Introduce_proto_def dict_get_def ex_build_result_def
        ex_identity_def ex_show_nat)

theorem introduce_to_onnx_witness:
  "length [0::nat] = length [1::nat] \<and>
   map_of (scope_var (br_scope ex_build_result)) 0 = Some ''x'' \<and>
   map_of (scope_var (br_scope ex_build_result)) 1 = Some ''y'' \<and>
   Introduce_to_onnx (Introduce [0] [1]) [0] [1] (br_scope ex_build_result) None = Inr [ex_identity] \<and>
   np_op_type ex_identity = ''Identity'' \<and>
   np_input ex_identity = [''x''] \<and> np_output ex_identity = [''y'']"
proof -
  have a: "length [0::nat] = length [1::nat]" by simp
  have b: "\<forall>a \<in> set [0] \<union> set [1]. map_of (scope_var (br_scope ex_build_result)) a \<noteq> None"
    by (simp add: ex_build_result_def)
  from introduce_to_onnx [OF a b, of "Introduce [0] [1]" None] obtain protos where
    c: "Introduce_to_onnx (Introduce [0] [1]) [0] [1] (br_scope ex_build_result) None = Inr protos" and
    d: "\<forall>i < length [0::nat]. \<exists>a b.
              map_of (scope_var (br_scope ex_build_result)) ([0] ! i) = Some a \<and>
              map_of (scope_var (br_scope ex_build_result)) ([1] ! i) = Some b \<and>
              np_op_type (protos ! i) = ''Identity'' \<and>
              np_input (protos ! i) = [a] \<and> np_output (protos ! i) = [b]"
    by blast
  from c ex_introduce_to_onnx have e: "protos = [ex_identity]" by simp
  from d have "\<exists>a b.
      map_of (scope_var (br_scope ex_build_result)) 0 = Some a \<and>
      map_of (scope_var (br_scope ex_build_result)) 1 = Some b \<and>
      np_op_type (protos ! 0) = ''Identity'' \<and>
      np_input (protos ! 0) = [a] \<and> np_output (protos ! 0) = [b]"
    by simp
  then have q: "np_op_type ex_identity = ''Identity'' \<and>
      np_input ex_identity = [''x''] \<and> np_output ex_identity = [''y'']"
    by (auto simp: e ex_build_result_def)
  have m0: "map_of (scope_var (br_scope ex_build_result)) 0 = Some ''x''"
    and m1: "map_of (scope_var (br_scope ex_build_result)) 1 = Some ''y''"
    by (simp_all add: ex_build_result_def)
  show ?thesis
    by (intro conjI a m0 m1 ex_introduce_to_onnx q [THEN conjunct1]
          q [THEN conjunct2, THEN conjunct1] q [THEN conjunct2, THEN conjunct2])
qed

subsection \<open>The unsafe casts\<close>

lemma unsafe_cast_result:
  assumes "x < next_var w"
  shows "\<exists>y w'. unsafe_cast x t w = (Inr y, w') \<and> y = next_var w \<and>
           var_value (vars w' y) = var_value (vars w x) \<and>
           var_type (vars w' y) = Some t \<and>
           var_op (vars w' y) = Some (Introduce [x] [y]) \<and>
           (\<forall>a. a \<noteq> y \<longrightarrow> vars w' a = vars w a)"
  using assms
  by (simp add: unsafe_cast_def intro_def intros_def construct_Introduce_def Let_def
        st_bind_def st_return_def)

lemma unwrap_tensor_Tensor:
  "var_type (vars w x) = Some (Tensor d s0) \<Longrightarrow> unwrap_tensor x w = (Inr (d, s0), w)"
  by (simp add: unwrap_tensor_def unwrap_type_def st_bind_def st_return_def)

lemma unwrap_tensor_other:
  "\<forall>d s0. var_type (vars w x) \<noteq> Some (Tensor d s0) \<Longrightarrow> unwrap_tensor x w = (Inl TypeError, w)"
  by (cases "var_type (vars w x)")
     (auto simp: unwrap_tensor_def unwrap_type_def st_bind_def st_return_def st_raise_def
           split: ty.splits)

subsection \<open>C5: unsafe casts pass the value through an Introduce node\<close>

text \<open>
  C5, as stated, fails for \<open>unsafe_reshape\<close>: it reads the element type of its input
  from the input's tensor type, and raises a \<open>TypeError\<close> when the input's type is
  unknown (or is not a tensor). No \<open>Var\<close> and no node is created then.
\<close>

theorem unsafe_reshape_untyped_counterexample:
  "unsafe_reshape 0 [DimNone, DimInt 2] ex_world_untyped = (Inl TypeError, ex_world_untyped)"
  by (simp add: unsafe_reshape_def unwrap_tensor_def unwrap_type_def st_bind_def st_raise_def
        ex_world_untyped_def ex_world_def)

text \<open>
  C5, amended. For every allocated \<open>Var\<close> \<open>x\<close> and every type \<open>t\<close>, \<open>unsafe_cast x t\<close>
  returns a new \<open>Var\<close> \<open>y\<close> (the next free reference) with the propagated value of
  \<open>x\<close>, the type \<open>t\<close>, and an \<open>_Introduce\<close> node with the one input \<open>x\<close> and the one
  output \<open>y\<close> as its producer; every other \<open>Var\<close>, \<open>x\<close> included, is as before. For
  every \<open>x\<close> whose type is a tensor of element type \<open>d\<close>, \<open>unsafe_reshape x shape\<close>
  does the same with the type \<open>Tensor d shape\<close>. For every other \<open>x\<close> it raises
  \<open>TypeError\<close> and changes nothing.
\<close>

theorem unsafe_cast_passthrough:
  assumes "x < next_var w"
  shows
    "(\<exists>y w'. unsafe_cast x t w = (Inr y, w') \<and> y = next_var w \<and>
        var_value (vars w' y) = var_value (vars w x) \<and>
        var_type (vars w' y) = Some t \<and>
        var_op (vars w' y) = Some (Introduce [x] [y]) \<and>
        (\<forall>a. a \<noteq> y \<longrightarrow> vars w' a = vars w a)) \<and>
     (\<forall>d s0. var_type (vars w x) = Some (Tensor d s0) \<longrightarrow>
        (\<exists>y w'. unsafe_reshape x shape w = (Inr y, w') \<and> y = next_var w \<and>
           var_value (vars w' y) = var_value (vars w x) \<and>
           var_type (vars w' y) = Some (Tensor d (Some shape)) \<and>
           var_op (vars w' y) = Some (Introduce [x] [y]) \<and>
           (\<forall>a. a \<noteq> y \<longrightarrow> vars w' a = vars w a))) \<and>
     ((\<forall>d s0. var_type (vars w x) \<noteq> Some (Tensor d s0)) \<longrightarrow>
        unsafe_reshape x shape w = (Inl TypeError, w))"
proof (intro conjI allI impI)
  show "\<exists>y w'. unsafe_cast x t w = (Inr y, w') \<and> y = next_var w \<and>
        var_value (vars w' y) = var_value (vars w x) \<and>
        var_type (vars w' y) = Some t \<and>
        var_op (vars w' y) = Some (Introduce [x] [y]) \<and>
        (\<forall>a. a \<noteq> y \<longrightarrow> vars w' a = vars w a)"
    by (rule unsafe_cast_result [OF assms])
next
  fix d s0 assume "var_type (vars w x) = Some (Tensor d s0)"
  then have "unsafe_reshape x shape w = unsafe_cast x (Tensor d (Some shape)) w"
    by (simp add: unsafe_reshape_def st_bind_def unwrap_tensor_Tensor)
  with unsafe_cast_result [OF assms, of "Tensor d (Some shape)"]
  show "\<exists>y w'. unsafe_reshape x shape w = (Inr y, w') \<and> y = next_var w \<and>
           var_value (vars w' y) = var_value (vars w x) \<and>
           var_type (vars w' y) = Some (Tensor d (Some shape)) \<and>
           var_op (vars w' y) = Some (Introduce [x] [y]) \<and>
           (\<forall>a. a \<noteq> y \<longrightarrow> vars w' a = vars w a)"
    by simp
next
  assume "\<forall>d s0. var_type (vars w x) \<noteq> Some (Tensor d s0)"
  then show "unsafe_reshape x shape w = (Inl TypeError, w)"
    by (simp add: unsafe_reshape_def st_bind_def unwrap_tensor_other)
qed

theorem unsafe_cast_passthrough_witness:
  "0 < next_var ex_world_valued \<and>
   fst (unsafe_cast 0 ex_type ex_world_valued) = Inr 2 \<and>
   var_value (vars (snd (unsafe_cast 0 ex_type ex_world_valued)) 2) = Some ex_value \<and>
   var_type (vars (snd (unsafe_cast 0 ex_type ex_world_valued)) 2) = Some ex_type \<and>
   var_op (vars (snd (unsafe_cast 0 ex_type ex_world_valued)) 2) = Some (Introduce [0] [2]) \<and>
   fst (unsafe_reshape 0 [DimNone, DimInt 2] ex_world_valued) = Inr 2 \<and>
   var_type (vars (snd (unsafe_reshape 0 [DimNone, DimInt 2] ex_world_valued)) 2)
     = Some (Tensor ''float32'' (Some [DimNone, DimInt 2])) \<and>
   var_value (vars (snd (unsafe_reshape 0 [DimNone, DimInt 2] ex_world_valued)) 2) = Some ex_value \<and>
   unsafe_reshape 1 [DimNone] (ex_world_valued\<lparr>vars := (vars ex_world_valued)
       (1 := (vars ex_world_valued 1)\<lparr>var_type := Some (Sequence ex_type)\<rparr>)\<rparr>)
     = (Inl TypeError, ex_world_valued\<lparr>vars := (vars ex_world_valued)
       (1 := (vars ex_world_valued 1)\<lparr>var_type := Some (Sequence ex_type)\<rparr>)\<rparr>)"
proof -
  let ?w = ex_world_valued
  let ?ws = "ex_world_valued\<lparr>vars := (vars ex_world_valued)
       (1 := (vars ex_world_valued 1)\<lparr>var_type := Some (Sequence ex_type)\<rparr>)\<rparr>"
  have n: "0 < next_var ?w" and n2: "next_var ?w = 2"
    by (simp_all add: ex_world_valued_def ex_world_def)
  have ns: "1 < next_var ?ws" by (simp add: ex_world_valued_def ex_world_def)
  have v: "var_value (vars ?w 0) = Some ex_value"
    and ty: "var_type (vars ?w 0) = Some (Tensor ''float32'' None)"
    by (simp_all add: ex_world_valued_def)
  have tys: "\<forall>d s0. var_type (vars ?ws 1) \<noteq> Some (Tensor d s0)" by simp
  note t = unsafe_cast_passthrough [OF n, of ex_type "[DimNone, DimInt 2]"]
  note ts = unsafe_cast_passthrough [OF ns, of ex_type "[DimNone]"]
  from t obtain y w' where
    "unsafe_cast 0 ex_type ?w = (Inr y, w')" and "y = next_var ?w" and
    "var_value (vars w' y) = var_value (vars ?w 0)" and "var_type (vars w' y) = Some ex_type" and
    "var_op (vars w' y) = Some (Introduce [0] [y])"
    by blast
  with n2 v have a: "fst (unsafe_cast 0 ex_type ?w) = Inr 2 \<and>
     var_value (vars (snd (unsafe_cast 0 ex_type ?w)) 2) = Some ex_value \<and>
     var_type (vars (snd (unsafe_cast 0 ex_type ?w)) 2) = Some ex_type \<and>
     var_op (vars (snd (unsafe_cast 0 ex_type ?w)) 2) = Some (Introduce [0] [2])"
    by simp
  from t ty obtain y w' where
    "unsafe_reshape 0 [DimNone, DimInt 2] ?w = (Inr y, w')" and "y = next_var ?w" and
    "var_value (vars w' y) = var_value (vars ?w 0)" and
    "var_type (vars w' y) = Some (Tensor ''float32'' (Some [DimNone, DimInt 2]))"
    by blast
  with n2 v have b: "fst (unsafe_reshape 0 [DimNone, DimInt 2] ?w) = Inr 2 \<and>
     var_type (vars (snd (unsafe_reshape 0 [DimNone, DimInt 2] ?w)) 2)
       = Some (Tensor ''float32'' (Some [DimNone, DimInt 2])) \<and>
     var_value (vars (snd (unsafe_reshape 0 [DimNone, DimInt 2] ?w)) 2) = Some ex_value"
    by simp
  from ts tys have c: "unsafe_reshape 1 [DimNone] ?ws = (Inl TypeError, ?ws)" by blast
  from n a b c show ?thesis by (intro conjI) blast+
qed

subsection \<open>Constructing arguments\<close>

lemma construct_Argument_untyped:
  "a_type attrs = None \<Longrightarrow> construct_Argument attrs w = (Inl ConstructionError, w)"
  by (simp add: construct_Argument_def)

lemma construct_Argument_typed:
  "a_type attrs = Some t \<Longrightarrow>
   construct_Argument attrs w =
     (Inr (Argument attrs (next_var w)),
      w\<lparr>vars := (vars w)(next_var w :=
           \<lparr>var_type = Some t, var_value = None, var_name = a_name attrs,
            var_op = Some (Argument attrs (next_var w))\<rparr>),
        next_var := Suc (next_var w)\<rparr>)"
  by (cases "a_name attrs") (simp_all add: construct_Argument_def Let_def)

text \<open>One keyword of \<open>arguments_dict\<close>: the attributes it gives the constructor.\<close>

lemma arguments_dict_loop_step:
  "arguments_dict_loop ((name, i) # kwargs) result w =
     (case i of
        OtherInfo \<Rightarrow> (Inl TypeError, w)
      | NoneInfo \<Rightarrow> (Inl ConstructionError, w)
      | TypeInfo t \<Rightarrow>
          arguments_dict_loop kwargs (dict_set result name (next_var w))
            (w\<lparr>vars := (vars w)(next_var w :=
                 \<lparr>var_type = Some t, var_value = None, var_name = Some name,
                  var_op = Some (Argument \<lparr>a_type = Some t, a_name = Some name, a_default = None\<rparr>
                                   (next_var w))\<rparr>),
               next_var := Suc (next_var w)\<rparr>)
      | ArrayInfo arr \<Rightarrow>
          arguments_dict_loop kwargs (dict_set result name (next_var w))
            (w\<lparr>vars := (vars w)(next_var w :=
                 \<lparr>var_type = Some (like_array arr), var_value = None, var_name = Some name,
                  var_op = Some (Argument \<lparr>a_type = Some (like_array arr), a_name = Some name,
                                           a_default = Some arr\<rparr> (next_var w))\<rparr>),
               next_var := Suc (next_var w)\<rparr>))"
  by (cases i)
     (simp_all add: st_bind_def st_raise_def st_return_def Argument_output_def
        construct_Argument_untyped construct_Argument_typed)

declare arguments_dict_loop.simps(2) [simp del]

lemma arguments_dict_loop_typed:
  "arguments_dict_loop kwargs result w = (Inr result', w') \<Longrightarrow> typed_arguments result w \<Longrightarrow>
   typed_arguments result' w' \<and> NoneInfo \<notin> snd ` set kwargs"
proof (induction kwargs arbitrary: result w)
  case Nil
  then show ?case by (simp add: st_return_def)
next
  case (Cons kw kwargs)
  obtain name i where kw: "kw = (name, i)" by (cases kw)
  show ?case
  proof (cases i)
    case NoneInfo
    with Cons.prems(1) show ?thesis by (simp add: kw arguments_dict_loop_step)
  next
    case OtherInfo
    with Cons.prems(1) show ?thesis by (simp add: kw arguments_dict_loop_step)
  next
    case (TypeInfo t)
    let ?w1 = "w\<lparr>vars := (vars w)(next_var w :=
                 \<lparr>var_type = Some t, var_value = None, var_name = Some name,
                  var_op = Some (Argument \<lparr>a_type = Some t, a_name = Some name, a_default = None\<rparr>
                                   (next_var w))\<rparr>),
               next_var := Suc (next_var w)\<rparr>"
    from Cons.prems(1) have
      l: "arguments_dict_loop kwargs (dict_set result name (next_var w)) ?w1 = (Inr result', w')"
      by (simp add: kw TypeInfo arguments_dict_loop_step)
    have "typed_arguments (dict_set result name (next_var w)) ?w1"
      unfolding typed_arguments_def
    proof
      fix x assume "x \<in> set (dict_set result name (next_var w))"
      with set_dict_set [of result name "next_var w"]
      have "x = (name, next_var w) \<or> x \<in> set result" by blast
      with Cons.prems(2)
      show "case x of (n, a) \<Rightarrow> a < next_var ?w1 \<and> var_type (vars ?w1 a) \<noteq> None"
        by (auto simp: typed_arguments_def)
    qed
    from Cons.IH [OF l this] show ?thesis by (simp add: kw TypeInfo)
  next
    case (ArrayInfo arr)
    let ?w1 = "w\<lparr>vars := (vars w)(next_var w :=
                 \<lparr>var_type = Some (like_array arr), var_value = None, var_name = Some name,
                  var_op = Some (Argument \<lparr>a_type = Some (like_array arr), a_name = Some name,
                                           a_default = Some arr\<rparr> (next_var w))\<rparr>),
               next_var := Suc (next_var w)\<rparr>"
    from Cons.prems(1) have
      l: "arguments_dict_loop kwargs (dict_set result name (next_var w)) ?w1 = (Inr result', w')"
      by (simp add: kw ArrayInfo arguments_dict_loop_step)
    have "typed_arguments (dict_set result name (next_var w)) ?w1"
      unfolding typed_arguments_def
    proof
      fix x assume "x \<in> set (dict_set result name (next_var w))"
      with set_dict_set [of result name "next_var w"]
      have "x = (name, next_var w) \<or> x \<in> set result" by blast
      with Cons.prems(2)
      show "case x of (n, a) \<Rightarrow> a < next_var ?w1 \<and> var_type (vars ?w1 a) \<noteq> None"
        by (auto simp: typed_arguments_def)
    qed
    from Cons.IH [OF l this] show ?thesis by (simp add: kw ArrayInfo)
  qed
qed

subsection \<open>C6: the type of an argument is mandatory\<close>

text \<open>
  C6. Constructing an \<open>Argument\<close> whose \<open>type\<close> is \<open>None\<close> fails with a Construction
  error and leaves the world as it is. \<open>arguments_dict\<close> and \<open>arguments\<close> pass the
  \<open>None\<close> of a keyword on to that constructor, so they fail in the same way at the
  first such keyword (here: the first keyword). Whenever \<open>arguments_dict\<close> returns, no
  keyword was \<open>None\<close> and every argument it returns has a type.
\<close>

theorem argument_type_mandatory:
  "construct_Argument \<lparr>a_type = None, a_name = nm, a_default = df\<rparr> w = (Inl ConstructionError, w) \<and>
   arguments_dict ((name, NoneInfo) # kwargs) w = (Inl ConstructionError, w) \<and>
   arguments ((name, NoneInfo) # kwargs) w = (Inl ConstructionError, w) \<and>
   (arguments_dict kws w = (Inr result, w') \<longrightarrow>
      NoneInfo \<notin> snd ` set kws \<and>
      (\<forall>(n, a) \<in> set result. var_type (vars w' a) \<noteq> None))"
proof (intro conjI impI)
  show "construct_Argument \<lparr>a_type = None, a_name = nm, a_default = df\<rparr> w
          = (Inl ConstructionError, w)"
    by (simp add: construct_Argument_untyped)
  show d: "arguments_dict ((name, NoneInfo) # kwargs) w = (Inl ConstructionError, w)"
    by (simp add: arguments_dict_def arguments_dict_loop_step)
  show "arguments ((name, NoneInfo) # kwargs) w = (Inl ConstructionError, w)"
    by (simp add: arguments_def st_bind_def d)
next
  assume "arguments_dict kws w = (Inr result, w')"
  then have l: "arguments_dict_loop kws [] w = (Inr result, w')"
    by (simp add: arguments_dict_def)
  have "typed_arguments [] w" by (simp add: typed_arguments_def)
  from arguments_dict_loop_typed [OF l this]
  show "NoneInfo \<notin> snd ` set kws" and "\<forall>(n, a) \<in> set result. var_type (vars w' a) \<noteq> None"
    by (auto simp: typed_arguments_def)
qed

lemma ex_arguments_dict:
  "fst (arguments_dict [(''a'', TypeInfo ex_type), (''b'', ArrayInfo ex_value)] ex_world)
     = Inr [(''a'', 2), (''b'', 3)]"
  by (simp add: arguments_dict_def arguments_dict_loop_step st_return_def ex_world_def)

theorem argument_type_mandatory_witness:
  "fst (arguments_dict [(''a'', TypeInfo ex_type), (''b'', ArrayInfo ex_value)] ex_world)
     = Inr [(''a'', 2), (''b'', 3)] \<and>
   var_type (vars (snd (arguments_dict [(''a'', TypeInfo ex_type), (''b'', ArrayInfo ex_value)]
                          ex_world)) 2) \<noteq> None \<and>
   var_type (vars (snd (arguments_dict [(''a'', TypeInfo ex_type), (''b'', ArrayInfo ex_value)]
                          ex_world)) 3) \<noteq> None \<and>
   arguments_dict [(''a'', NoneInfo), (''b'', ArrayInfo ex_value)] ex_world
     = (Inl ConstructionError, ex_world)"
proof -
  let ?kws = "[(''a'', TypeInfo ex_type), (''b'', ArrayInfo ex_value)]"
  obtain w' where e: "arguments_dict ?kws ex_world = (Inr [(''a'', 2), (''b'', 3)], w')"
    using ex_arguments_dict by (cases "arguments_dict ?kws ex_world") simp
  note t = argument_type_mandatory [of None None ex_world "''a''" "[(''b'', ArrayInfo ex_value)]"
             ?kws "[(''a'', 2), (''b'', 3)]" w']
  from t e have "\<forall>(n, a) \<in> set [(''a'', 2::nat), (''b'', 3)]. var_type (vars w' a) \<noteq> None"
    by blast
  then have "var_type (vars w' 2) \<noteq> None \<and> var_type (vars w' 3) \<noteq> None" by simp
  moreover from t have "arguments_dict [(''a'', NoneInfo), (''b'', ArrayInfo ex_value)] ex_world
     = (Inl ConstructionError, ex_world)" by blast
  ultimately show ?thesis using e by simp
qed

end
